theory Spec2Isabelle
  imports Complex_Main
begin

section \<open>JavaScript strings and numbers\<close>

text \<open>
  A \<^typ>\<open>char\<close> stands for one UTF-16 code unit below 256, so a \<^typ>\<open>string\<close> is a
  JavaScript string over the Latin-1 range. The functions below follow the ECMAScript
  built-ins the sources call, restricted to that range.
\<close>

definition code :: "char \<Rightarrow> nat" where
  "code c = of_char c"

definition isWhiteSpace :: "char \<Rightarrow> bool" where
  \<comment> \<open>WhiteSpace and LineTerminator code points below 256: TAB, LF, VT, FF, CR, SP, NBSP\<close>
  "isWhiteSpace c = (code c \<in> {9, 10, 11, 12, 13, 32, 160})"

definition trim :: "string \<Rightarrow> string" where
  "trim s = rev (dropWhile isWhiteSpace (rev (dropWhile isWhiteSpace s)))"

definition toLowerCaseChar :: "char \<Rightarrow> char" where
  "toLowerCaseChar c =
     (let n = code c in
      if (65 \<le> n \<and> n \<le> 90) \<or> (192 \<le> n \<and> n \<le> 222 \<and> n \<noteq> 215)
      then char_of (n + 32) else c)"

definition toLowerCase :: "string \<Rightarrow> string" where
  "toLowerCase s = map toLowerCaseChar s"

fun startsWith :: "string \<Rightarrow> string \<Rightarrow> bool" where
  "startsWith s [] = True"
| "startsWith [] (p # ps) = False"
| "startsWith (c # cs) (p # ps) = (c = p \<and> startsWith cs ps)"

fun includesStr :: "string \<Rightarrow> string \<Rightarrow> bool" where
  "includesStr [] needle = (needle = [])"
| "includesStr (c # cs) needle = (startsWith (c # cs) needle \<or> includesStr cs needle)"

definition digit :: "nat \<Rightarrow> char" where
  "digit d = char_of (48 + d)"

fun natToString :: "nat \<Rightarrow> string" where
  "natToString n = (if n < 10 then [digit n] else natToString (n div 10) @ [digit (n mod 10)])"

declare natToString.simps [simp del]

definition toString :: "int \<Rightarrow> string" where
  \<comment> \<open>\<open>Number.prototype.toString\<close> on an integer value\<close>
  "toString i = (if i < 0 then CHR ''-'' # natToString (nat (- i)) else natToString (nat i))"

definition padStart :: "nat \<Rightarrow> char \<Rightarrow> string \<Rightarrow> string" where
  \<comment> \<open>\<open>s.padStart(n, c)\<close> with a one-character filler\<close>
  "padStart n c s = replicate (n - length s) c @ s"

definition js_rem :: "int \<Rightarrow> int \<Rightarrow> int" where
  \<comment> \<open>the \<open>%\<close> operator on integers: the result takes the sign of the dividend\<close>
  "js_rem a b = (if a < 0 then - ((- a) mod \<bar>b\<bar>) else a mod \<bar>b\<bar>)"

definition formatDuration :: "int \<Rightarrow> string" where
  \<comment> \<open>the \<open>MM:SS\<close> template literal shared by the recorder and the pipeline\<close>
  "formatDuration seconds =
     (let minutes = seconds div 60;
          remainingSeconds = js_rem seconds 60
      in padStart 2 (CHR ''0'') (toString minutes) @ '':'' @
         padStart 2 (CHR ''0'') (toString remainingSeconds))"

section \<open>Recorder hook (use-audio-recorder)\<close>

datatype media_error = NotAllowedError | NotFoundError | NotSupportedError | OtherError

datatype recorder_state = Inactive | Capturing | Suspended

record recorder =
  isRecording :: bool
  isPaused :: bool
  duration :: string
  audioBlob :: "string list option"
  mediaRecorderRef :: "recorder_state option"
  streamRef :: bool
  chunksRef :: "string list"
  startTimeRef :: int
  intervalRef :: bool
  toasts :: "string list"

definition initial_recorder :: recorder where
  "initial_recorder =
     \<lparr>isRecording = False, isPaused = False, duration = ''00:00'', audioBlob = None,
      mediaRecorderRef = None, streamRef = False, chunksRef = [], startTimeRef = 0,
      intervalRef = False, toasts = []\<rparr>"

definition updateDuration :: "int \<Rightarrow> recorder \<Rightarrow> recorder" where
  \<comment> \<open>the interval callback; the first argument is \<open>Date.now()\<close> at the tick\<close>
  "updateDuration now st =
     (if startTimeRef st = 0 then st
      else
        let elapsed = now - startTimeRef st;
            seconds = elapsed div 1000
        in st\<lparr>duration := formatDuration seconds\<rparr>)"

definition errorMessage :: "media_error \<Rightarrow> string" where
  "errorMessage e =
     (case e of
        NotAllowedError \<Rightarrow> ''Microphone access denied. Please allow microphone permissions and try again.''
      | NotFoundError \<Rightarrow> ''No microphone found. Please connect a microphone and try again.''
      | NotSupportedError \<Rightarrow> ''Your browser doesn't support audio recording.''
      | OtherError \<Rightarrow> ''Failed to start recording. Please check microphone permissions.'')"

definition startRecording :: "media_error option \<Rightarrow> int \<Rightarrow> recorder \<Rightarrow> recorder" where
  \<comment> \<open>first argument: the rejection of \<open>getUserMedia\<close>, if any; second: \<open>Date.now()\<close>\<close>
  "startRecording denied now st =
     (case denied of
        Some e \<Rightarrow> st\<lparr>toasts := toasts st @ [errorMessage e]\<rparr>
      | None \<Rightarrow>
          st\<lparr>streamRef := True, chunksRef := [], mediaRecorderRef := Some Capturing,
             isRecording := True, isPaused := False, startTimeRef := now,
             duration := ''00:00'', intervalRef := True\<rparr>)"

definition pauseRecording :: "recorder \<Rightarrow> recorder" where
  "pauseRecording st =
     (if mediaRecorderRef st = None \<or> \<not> isRecording st then st
      else if isPaused st then st\<lparr>mediaRecorderRef := Some Capturing, isPaused := False\<rparr>
      else st\<lparr>mediaRecorderRef := Some Suspended, isPaused := True\<rparr>)"

definition stopRecording :: "recorder \<Rightarrow> bool \<times> recorder" where
  \<comment> \<open>the boolean tells whether an object URL for the audio is returned\<close>
  "stopRecording st =
     (if mediaRecorderRef st = None \<or> \<not> isRecording st then (False, st)
      else (True, st\<lparr>audioBlob := Some (chunksRef st), streamRef := False, intervalRef := False,
                     mediaRecorderRef := Some Inactive, isRecording := False, isPaused := False\<rparr>))"

fun ticks :: "int list \<Rightarrow> recorder \<Rightarrow> recorder" where
  \<comment> \<open>the interval firing at the given clock readings, in order\<close>
  "ticks [] st = st"
| "ticks (now # rest) st = ticks rest (if intervalRef st then updateDuration now st else st)"

fun strLess :: "string \<Rightarrow> string \<Rightarrow> bool" where
  \<comment> \<open>the \<open><\<close> operator on two strings: code units compared left to right\<close>
  "strLess [] [] = False"
| "strLess [] (y # ys) = True"
| "strLess (x # xs) [] = False"
| "strLess (x # xs) (y # ys) = (code x < code y \<or> (x = y \<and> strLess xs ys))"

definition truthy :: "string option \<Rightarrow> string option" where
  \<comment> \<open>a string-valued operand of \<open>||\<close>, \<open>&&\<close> or \<open>if\<close>: null, undefined and the empty string are falsy\<close>
  "truthy v = (case v of None \<Rightarrow> None | Some s \<Rightarrow> if s = [] then None else Some s)"

section \<open>Plain objects used as dictionaries\<close>

text \<open>
  An object literal \<open>{}\<close> that the code fills by assignment is a list of its own properties
  in the order of their creation. \<open>Object.entries\<close> lists the properties whose key is an
  array index first, in ascending numeric order, and the others after them in creation
  order. Reading a key that is not an own property falls through to \<open>Object.prototype\<close>:
  for the member names below the read yields a function (or, for \<open>__proto__\<close>, the prototype
  object) instead of \<open>undefined\<close>.
\<close>

definition objectPrototypeNames :: "string list" where
  "objectPrototypeNames =
     [''constructor'', ''__defineGetter__'', ''__defineSetter__'', ''hasOwnProperty'',
      ''__lookupGetter__'', ''__lookupSetter__'', ''isPrototypeOf'', ''propertyIsEnumerable'',
      ''toString'', ''valueOf'', ''__proto__'', ''toLocaleString'']"

definition plainKey :: "string \<Rightarrow> bool" where
  "plainKey k = (k \<notin> set objectPrototypeNames)"

definition isDigit :: "char \<Rightarrow> bool" where
  "isDigit c = (48 \<le> code c \<and> code c \<le> 57)"

definition digitsValue :: "string \<Rightarrow> int" where
  "digitsValue s = foldl (\<lambda>n c. 10 * n + (int (code c) - 48)) 0 s"

definition isArrayIndex :: "string \<Rightarrow> bool" where
  \<comment> \<open>canonical decimal numerals of the integers from 0 to \<open>2^32 - 2\<close>\<close>
  "isArrayIndex k =
     (k \<noteq> [] \<and> list_all isDigit k \<and> (k = ''0'' \<or> hd k \<noteq> CHR ''0'') \<and>
      length k \<le> 10 \<and> digitsValue k < 4294967295)"

definition ownKeys :: "(string \<times> 'a) list \<Rightarrow> string list" where
  \<comment> \<open>the own property keys in creation order\<close>
  "ownKeys obj = map fst obj"

definition getProp :: "(string \<times> 'a) list \<Rightarrow> string \<Rightarrow> 'a option" where
  \<comment> \<open>own properties only\<close>
  "getProp obj k = map_of obj k"

fun setProp :: "(string \<times> 'a) list \<Rightarrow> string \<Rightarrow> 'a \<Rightarrow> (string \<times> 'a) list" where
  "setProp [] k v = [(k, v)]"
| "setProp ((k', v') # rest) k v =
     (if k' = k then (k, v) # rest else (k', v') # setProp rest k v)"

definition entries :: "(string \<times> 'a) list \<Rightarrow> (string \<times> 'a) list" where
  "entries obj =
     sort_key (\<lambda>e. digitsValue (fst e)) (filter (\<lambda>e. isArrayIndex (fst e)) obj) @
     filter (\<lambda>e. \<not> isArrayIndex (fst e)) obj"

section \<open>Stored rows\<close>

record recording_row =
  row_id :: string
  user_id :: string
  title :: "string option"
  audio_url :: "string option"
  transcription :: "string option"
  summary :: "string option"
  sentiment :: "string option"
  tags :: "string list option"
  duration_seconds :: "int option"
  duration_formatted :: "string option"
  created_at :: string

record highlight_row =
  recording_id :: string
  timestamp_seconds :: "int option"
  content :: "string option"

section \<open>Search view (search-interface)\<close>

record search_result =
  result_id :: string
  result_title :: string
  snippet :: string
  timestamp :: string
  result_tags :: "string list"
  result_audio_url :: "string option"
  result_transcription :: "string option"

definition fieldIncludes :: "string option \<Rightarrow> string \<Rightarrow> bool" where
  \<comment> \<open>\<open>field?.toLowerCase().includes(searchText)\<close>: a null field yields undefined, which is falsy\<close>
  "fieldIncludes field searchText =
     (case field of None \<Rightarrow> False | Some s \<Rightarrow> includesStr (toLowerCase s) searchText)"

definition matchesQuery :: "string \<Rightarrow> recording_row \<Rightarrow> bool" where
  \<comment> \<open>the predicate passed to \<open>allRecordings.filter\<close>\<close>
  "matchesQuery query recording =
     (let searchText = toLowerCase query in
      fieldIncludes (title recording) searchText \<or>
      fieldIncludes (transcription recording) searchText \<or>
      fieldIncludes (summary recording) searchText \<or>
      (case tags recording of None \<Rightarrow> False
       | Some ts \<Rightarrow> list_ex (\<lambda>tag. includesStr (toLowerCase tag) searchText) ts))"

definition toSearchResult :: "(string \<Rightarrow> string) \<Rightarrow> recording_row \<Rightarrow> search_result" where
  \<comment> \<open>the first argument renders \<open>new Date(created_at).toLocaleDateString()\<close>, which depends on
      the browser's locale\<close>
  "toSearchResult localeDate recording =
     \<lparr>result_id = row_id recording,
      result_title = (case truthy (title recording) of Some t \<Rightarrow> t | None \<Rightarrow> ''Untitled Recording''),
      snippet =
        (case truthy (summary recording) of
           Some s \<Rightarrow> s
         | None \<Rightarrow>
             (case transcription recording of
                Some t \<Rightarrow> take 150 t @ ''...''
              | None \<Rightarrow> ''undefined...'')),
      timestamp = localeDate (created_at recording),
      result_tags = (case tags recording of Some ts \<Rightarrow> ts | None \<Rightarrow> []),
      result_audio_url = audio_url recording,
      result_transcription = transcription recording\<rparr>"

definition handleSearch ::
  "(string \<Rightarrow> string) \<Rightarrow> recording_row list \<Rightarrow> string \<Rightarrow> search_result list" where
  \<comment> \<open>the value given to \<open>setResults\<close> for the loaded recordings and the typed query\<close>
  "handleSearch localeDate allRecordings query =
     (if trim query = [] then []
      else map (toSearchResult localeDate) (filter (matchesQuery query) allRecordings))"

text \<open>The search as the specification words it: substring containment after lowercasing.\<close>

definition isSubstringOf :: "string \<Rightarrow> string \<Rightarrow> bool" where
  "isSubstringOf needle hay = (\<exists>before after. hay = before @ needle @ after)"

definition specMatches :: "string \<Rightarrow> recording_row \<Rightarrow> bool" where
  "specMatches query recording =
     (\<exists>field \<in> set_option (title recording) \<union> set_option (transcription recording) \<union>
                 set_option (summary recording) \<union> (case tags recording of None \<Rightarrow> {} | Some ts \<Rightarrow> set ts).
        isSubstringOf (toLowerCase query) (toLowerCase field))"

definition teamSync :: recording_row where
  \<comment> \<open>the one-recording corpus of the specification's search example\<close>
  "teamSync =
     \<lparr>row_id = ''r1'', user_id = ''u1'', title = Some ''Team Sync'',
      audio_url = Some ''https://storage/recordings/u1/1.webm'',
      transcription = Some ''Next we walk through the roadmap for Q3'',
      summary = Some ''Planning call'', sentiment = Some ''neutral'',
      tags = Some [''planning'', ''Q3''], duration_seconds = Some 65,
      duration_formatted = Some ''01:05'', created_at = ''2025-08-06T18:33:42Z''\<rparr>"

section \<open>Graph view (knowledge-graph)\<close>

definition countStep :: "(string \<times> nat) list \<Rightarrow> string \<Rightarrow> (string \<times> nat) list" where
  \<comment> \<open>\<open>acc[k] = (acc[k] || 0) + 1\<close> for a key that \<open>Object.prototype\<close> does not define\<close>
  "countStep acc k = setProp acc k ((case getProp acc k of None \<Rightarrow> 0 | Some c \<Rightarrow> c) + 1)"

definition pickEntry :: "string \<times> nat \<Rightarrow> string \<times> nat \<Rightarrow> string \<times> nat" where
  \<comment> \<open>the reducer \<open>(a, b) => counts[a[0]] > counts[b[0]] ? a : b\<close>; the count of an entry's
      key is the entry's own second component\<close>
  "pickEntry a b = (if snd a > snd b then a else b)"

definition getDominantSentiment :: "string list \<Rightarrow> string option" where
  \<comment> \<open>\<open>None\<close>: \<open>reduce\<close> of an empty array without an initial value throws a TypeError\<close>
  "getDominantSentiment sentiments =
     (let counts = foldl countStep [] sentiments in
      case entries counts of
        [] \<Rightarrow> None
      | e # es \<Rightarrow> Some (fst (foldl pickEntry e es)))"










datatype thrown = TypeError | Error string | Rejected string



record tally =
  tagCounts :: "(string \<times> nat) list"
  tagSentiments :: "(string \<times> string list) list"
  tagConnections :: "(string \<times> string list) list"


definition setAdd :: "string list \<Rightarrow> string \<Rightarrow> string list" where
  \<comment> \<open>\<open>Set.prototype.add\<close>: a \<open>Set\<close> keeps its members in insertion order\<close>
  "setAdd members x = (if x \<in> set members then members else members @ [x])"

definition tagsOf :: "recording_row \<Rightarrow> string list" where
  \<comment> \<open>\<open>recording.tags || []\<close>\<close>
  "tagsOf recording = (case tags recording of Some ts \<Rightarrow> ts | None \<Rightarrow> [])"

definition sentimentOf :: "recording_row \<Rightarrow> string" where
  \<comment> \<open>\<open>recording.sentiment || 'neutral'\<close>\<close>
  "sentimentOf recording = (case truthy (sentiment recording) of Some s \<Rightarrow> s | None \<Rightarrow> ''neutral'')"

definition stepTag :: "string list \<Rightarrow> string \<Rightarrow> tally \<Rightarrow> string \<Rightarrow> tally" where
  \<comment> \<open>the body of the inner \<open>tags.forEach\<close> for a tag that \<open>Object.prototype\<close> does not define\<close>
  "stepTag tgs sentimentLabel t tag =
     \<lparr>tagCounts = countStep (tagCounts t) tag,
      tagSentiments =
        setProp (tagSentiments t) tag
          ((case getProp (tagSentiments t) tag of None \<Rightarrow> [] | Some ss \<Rightarrow> ss) @ [sentimentLabel]),
      tagConnections =
        setProp (tagConnections t) tag
          (foldl (\<lambda>members otherTag. if tag \<noteq> otherTag then setAdd members otherTag else members)
             (case getProp (tagConnections t) tag of None \<Rightarrow> [] | Some members \<Rightarrow> members) tgs)\<rparr>"



definition stepRecording :: "tally \<Rightarrow> recording_row \<Rightarrow> tally" where
  \<comment> \<open>one round of the outer loop when no tag of the recording makes it throw\<close>
  "stepRecording t recording =
     foldl (stepTag (tagsOf recording) (sentimentOf recording)) t (tagsOf recording)"











text \<open>The graph as the specification words it.\<close>

definition allTags :: "recording_row list \<Rightarrow> string list" where
  "allTags recordings = concat (map tagsOf recordings)"






section \<open>Analysis service (analyze-recording)\<close>

datatype json =
    JNull
  | JBool bool
  | JNum int
  | JStr string
  | JArr "json list"
  | JObj "(string \<times> json) list"

datatype body = Text string | Json json

record response =
  status :: nat
  body :: body

datatype http_method = OPTIONS | POST | GET

datatype 'a payload =
    Unparsable string
    \<comment> \<open>\<open>req.json()\<close> rejects; the string is the message of the rejection\<close>
  | Payload 'a

datatype upstream_json =
    NotJson string
    \<comment> \<open>\<open>response.json()\<close> rejects with that message\<close>
  | NullResult string
    \<comment> \<open>the body is JSON \<open>null\<close>: reading \<open>result.candidates\<close> throws a TypeError with that message\<close>
  | CandidateText "string option"
    \<comment> \<open>\<open>result.candidates?.[0]?.content?.parts?.[0]?.text\<close>\<close>

record upstream_response =
  resp_ok :: bool
  resp_status :: nat
  resp_text :: string
  resp_json :: upstream_json

datatype fetch_outcome = NetworkError string | Responded upstream_response

function stripFences :: "string \<Rightarrow> string" where
  \<comment> \<open>\<open>content.replace(/```json\n?|\n?```/g, '')\<close>: at each position the first alternative is
      tried before the second, an optional line feed is taken when present, and a match is
      deleted\<close>
  "stripFences [] = []"
| "stripFences (c # cs) =
     (if startsWith (c # cs) ''```json''
      then (if startsWith (drop 7 (c # cs)) [CHR 0x0A]
            then stripFences (drop 8 (c # cs)) else stripFences (drop 7 (c # cs)))
      else if startsWith (c # cs) (CHR 0x0A # ''```'') then stripFences (drop 4 (c # cs))
      else if startsWith (c # cs) ''```'' then stripFences (drop 3 (c # cs))
      else c # stripFences cs)"
  by pat_completeness auto
termination
  by (relation "measure length") auto

definition fallbackAnalysis :: json where
  "fallbackAnalysis =
     JObj [(''summary'', JStr ''Analysis could not be completed due to parsing error''),
           (''keyPoints'', JArr [JStr ''Raw transcription available'']),
           (''sentiment'', JStr ''neutral''),
           (''tags'', JArr [JStr ''transcription'']),
           (''highlights'', JArr []),
           (''actionItems'', JArr [])]"

definition failureBody :: "string \<Rightarrow> json" where
  "failureBody msg =
     JObj [(''error'', JStr msg),
           (''summary'', JStr ''Analysis failed''),
           (''keyPoints'', JArr []),
           (''sentiment'', JStr ''neutral''),
           (''tags'', JArr []),
           (''highlights'', JArr []),
           (''actionItems'', JArr [])]"

definition parseAnalysis :: "(string \<Rightarrow> json option) \<Rightarrow> string option \<Rightarrow> json" where
  \<comment> \<open>the inner \<open>try\<close>/\<open>catch\<close>; the first argument is \<open>JSON.parse\<close>, \<open>None\<close> where it throws\<close>
  "parseAnalysis parse contentText =
     (case truthy contentText of
        None \<Rightarrow> fallbackAnalysis
      | Some c \<Rightarrow>
          (case parse (trim (stripFences c)) of
             None \<Rightarrow> fallbackAnalysis
           | Some analysis \<Rightarrow> analysis))"

definition analyzeText ::
  "(string \<Rightarrow> json option) \<Rightarrow> string option \<Rightarrow> (string \<Rightarrow> string \<Rightarrow> fetch_outcome) \<Rightarrow>
   string option payload \<Rightarrow> string + json" where
  \<comment> \<open>the outer \<open>try\<close> block: \<open>Inl\<close> carries the message of the error thrown. The upstream
      request is given by the API key and the transcription text (the wording of the prompt
      around the text is fixed)\<close>
  "analyzeText parse geminiApiKey fetch request =
     (case request of
        Unparsable msg \<Rightarrow> Inl msg
      | Payload txt \<Rightarrow>
          (case truthy txt of
             None \<Rightarrow> Inl ''No transcription text provided''
           | Some t \<Rightarrow>
               (case truthy geminiApiKey of
                  None \<Rightarrow> Inl ''Gemini API key not configured''
                | Some key \<Rightarrow>
                    (case fetch key t of
                       NetworkError msg \<Rightarrow> Inl msg
                     | Responded r \<Rightarrow>
                         if \<not> resp_ok r
                         then Inl (''Gemini API error: '' @ natToString (resp_status r) @ '' - '' @ resp_text r)
                         else (case resp_json r of
                                 NotJson msg \<Rightarrow> Inl msg
                               | NullResult msg \<Rightarrow> Inl msg
                               | CandidateText contentText \<Rightarrow> Inr (parseAnalysis parse contentText))))))"

definition analyze_recording ::
  "(string \<Rightarrow> json option) \<Rightarrow> string option \<Rightarrow> (string \<Rightarrow> string \<Rightarrow> fetch_outcome) \<Rightarrow>
   http_method \<Rightarrow> string option payload \<Rightarrow> response" where
  "analyze_recording parse geminiApiKey fetch httpMethod request =
     (if httpMethod = OPTIONS then \<lparr>status = 200, body = Text ''ok''\<rparr>
      else
        (case analyzeText parse geminiApiKey fetch request of
           Inr analysis \<Rightarrow> \<lparr>status = 200, body = Json analysis\<rparr>
         | Inl msg \<Rightarrow> \<lparr>status = 500, body = Json (failureBody msg)\<rparr>))"

definition jsonField :: "json \<Rightarrow> string \<Rightarrow> json option" where
  \<comment> \<open>a member of a JSON object\<close>
  "jsonField j k = (case j of JObj members \<Rightarrow> map_of members k | _ \<Rightarrow> None)"

definition chattyResponse :: upstream_response where
  \<comment> \<open>a successful upstream answer whose candidate text is prose, for the examples\<close>
  "chattyResponse =
     \<lparr>resp_ok = True, resp_status = 200, resp_text = [],
      resp_json = CandidateText (Some ''Sure! Here is the analysis.'')\<rparr>"

definition chattyUpstream :: "string \<Rightarrow> string \<Rightarrow> fetch_outcome" where
  "chattyUpstream key t = Responded chattyResponse"

definition parseEmptyObjectOnly :: "string \<Rightarrow> json option" where
  \<comment> \<open>\<open>JSON.parse\<close> restricted to the inputs of the examples: \<open>{}\<close> parses, prose does not\<close>
  "parseEmptyObjectOnly s = (if s = ''{}'' then Some (JObj []) else None)"

section \<open>Transcription service (transcribe-audio)\<close>

record service_result =
  reply :: response
  upstreamCalls :: "string list"
  \<comment> \<open>the audio payloads forwarded to the generation endpoint\<close>

definition transcriptionFailure :: "string \<Rightarrow> service_result" where
  \<comment> \<open>the \<open>catch\<close> block; the \<open>type\<close> and \<open>timestamp\<close> members of the body are left out\<close>
  "transcriptionFailure msg =
     \<lparr>reply = \<lparr>status = 500, body = Json (JObj [(''error'', JStr msg)])\<rparr>, upstreamCalls = []\<rparr>"

definition transcribe_audio ::
  "string option \<Rightarrow> (string \<Rightarrow> string \<Rightarrow> fetch_outcome) \<Rightarrow> http_method \<Rightarrow>
   string option payload \<Rightarrow> service_result" where
  "transcribe_audio geminiApiKey fetch httpMethod request =
     (if httpMethod = OPTIONS then \<lparr>reply = \<lparr>status = 200, body = Text ''ok''\<rparr>, upstreamCalls = []\<rparr>
      else
        (case request of
           Unparsable msg \<Rightarrow> transcriptionFailure msg
         | Payload audioField \<Rightarrow>
             (case truthy audioField of
                None \<Rightarrow> transcriptionFailure ''No audio data provided''
              | Some audio \<Rightarrow>
                  (case truthy geminiApiKey of
                     None \<Rightarrow> transcriptionFailure ''Gemini API key not configured''
                   | Some key \<Rightarrow>
                       if length audio > 10000000
                       then transcriptionFailure ''Audio file too large. Please use shorter recordings.''
                       else
                         (case fetch key audio of
                            NetworkError msg \<Rightarrow> (transcriptionFailure msg)\<lparr>upstreamCalls := [audio]\<rparr>
                          | Responded r \<Rightarrow>
                              if \<not> resp_ok r
                              then \<lparr>reply =
                                      \<lparr>status = 500,
                                       body = Json (JObj
                                         [(''error'', JStr (''Gemini API error: '' @ natToString (resp_status r))),
                                          (''details'', JStr (resp_text r)),
                                          (''gemini_status'', JNum (int (resp_status r)))])\<rparr>,
                                    upstreamCalls = [audio]\<rparr>
                              else
                                (case resp_json r of
                                   NotJson msg \<Rightarrow> (transcriptionFailure msg)\<lparr>upstreamCalls := [audio]\<rparr>
                                 | NullResult msg \<Rightarrow> (transcriptionFailure msg)\<lparr>upstreamCalls := [audio]\<rparr>
                                 | CandidateText transcribedText \<Rightarrow>
                                     (case truthy transcribedText of
                                        None \<Rightarrow>
                                          (transcriptionFailure ''No transcription text returned from Gemini'')
                                            \<lparr>upstreamCalls := [audio]\<rparr>
                                      | Some t \<Rightarrow>
                                          \<lparr>reply =
                                             \<lparr>status = 200,
                                              body = Json (JObj [(''text'', JStr (trim t)),
                                                                 (''language'', JStr ''auto-detected'')])\<rparr>,
                                           upstreamCalls = [audio]\<rparr>)))))))"

section \<open>Recording interface: save and transcribe\<close>

datatype fn_error = FnError (message: "string option")
  \<comment> \<open>the \<open>error\<close> component of the result of \<open>supabase.functions.invoke\<close>\<close>

record transcription_data =
  text_field :: "string option"
  language :: "string option"

record highlight =
  highlight_content :: "string option"
  highlight_timestamp :: "int option"

record analysis_data =
  analysis_summary :: "string option"
  keyPoints :: "string list option"
  analysis_sentiment :: "string option"
  analysis_tags :: "string list option"
  analysis_highlights :: "highlight list option"
  actionItems :: "string list option"

datatype duration_value = Seconds rat | NaN | Infinity
  \<comment> \<open>the value of \<open>audio.duration\<close> once the metadata has loaded\<close>

datatype metadata_outcome = NeverLoads | LoadedMetadata duration_value
  \<comment> \<open>whether the \<open>loadedmetadata\<close> event ever fires on the local audio element\<close>

datatype call =
    InvokeTranscribe string
  | InvokeAnalyze string
  | InsertRecording
  | SelectRecording
  | InsertHighlights

datatype toast = SaveErrorToast | ProcessingErrorToast thrown | RecordingSavedToast

datatype outcome =
    Skipped
    \<comment> \<open>no audio or no signed-in user: the handler returns at once\<close>
  | SaveError
    \<comment> \<open>the outer \<open>catch\<close>: the upload was rejected\<close>
  | ProcessingError thrown
    \<comment> \<open>the inner \<open>catch\<close>\<close>
  | Saved
  | Pending
    \<comment> \<open>an awaited promise never settles: the handler never resumes\<close>

record world =
  recordingsTable :: "recording_row list"
  highlightsTable :: "highlight_row list"
  storageObjects :: "string list"
  calls :: "call list"
  toastsShown :: "toast list"
  eventsDispatched :: "string list"
  isProcessing :: bool
  titleState :: string
  audioUrlState :: "string option"

record collaborators =
  dateNow :: int
  uploadError :: "string option"
  getPublicUrl :: "string \<Rightarrow> string"
  readerResult :: "string option"
  invokeTranscribe :: "string \<Rightarrow> transcription_data option \<times> fn_error option"
  invokeAnalyze :: "string \<Rightarrow> analysis_data option \<times> fn_error option"
  loadMetadata :: metadata_outcome
  dbError :: "string option"
  generatedId :: string
  generatedCreatedAt :: string
  highlightsError :: bool

fun splitOn :: "char \<Rightarrow> string \<Rightarrow> string list" where
  \<comment> \<open>\<open>s.split(c)\<close> for a one-character separator\<close>
  "splitOn sep [] = [[]]"
| "splitOn sep (c # cs) =
     (if c = sep then [] # splitOn sep cs
      else (case splitOn sep cs of [] \<Rightarrow> [[c]] | piece # pieces \<Rightarrow> (c # piece) # pieces))"

definition elementAt :: "'a list \<Rightarrow> nat \<Rightarrow> 'a option" where
  \<comment> \<open>\<open>xs[i]\<close>: undefined past the end\<close>
  "elementAt xs i = (if i < length xs then Some (xs ! i) else None)"

definition base64Audio :: "string option \<Rightarrow> string option" where
  \<comment> \<open>\<open>(reader.result as string).split(',')[1]\<close>; \<open>None\<close> where the expression throws a TypeError
      (null result) or yields undefined (no comma), so that reading its length throws\<close>
  "base64Audio result = (case result of None \<Rightarrow> None | Some dataUrl \<Rightarrow> elementAt (splitOn (CHR '','') dataUrl) 1)"

definition transcriptionText :: "transcription_data option \<Rightarrow> string option" where
  \<comment> \<open>\<open>transcriptionData?.text\<close> as a condition\<close>
  "transcriptionText d = (case d of None \<Rightarrow> None | Some td \<Rightarrow> truthy (text_field td))"

definition checkTranscription :: "transcription_data option \<times> fn_error option \<Rightarrow> thrown + string" where
  "checkTranscription r =
     (case r of (transcriptionData, transcriptionError) \<Rightarrow>
        (case transcriptionText transcriptionData of
           Some t \<Rightarrow> Inr t
         | None \<Rightarrow>
             (case transcriptionError of
                Some e \<Rightarrow>
                  Inl (Error (''Transcription failed: '' @
                     (case truthy (message e) of Some m \<Rightarrow> m | None \<Rightarrow> ''Unknown transcription error'')))
              | None \<Rightarrow> Inl (Error ''No transcription text received from the API''))))"

definition analysisSummary :: "analysis_data option \<Rightarrow> string option" where
  \<comment> \<open>\<open>analysisData?.summary\<close> as a condition\<close>
  "analysisSummary d = (case d of None \<Rightarrow> None | Some ad \<Rightarrow> truthy (analysis_summary ad))"

definition checkAnalysis :: "analysis_data option \<times> fn_error option \<Rightarrow> thrown + unit" where
  \<comment> \<open>the third branch only warns: \<open>Analysis completed but no summary received. Using partial data.\<close>\<close>
  "checkAnalysis r =
     (case r of (analysisData, analysisError) \<Rightarrow>
        (case analysisSummary analysisData of
           Some s \<Rightarrow> Inr ()
         | None \<Rightarrow>
             (case analysisError of
                Some e \<Rightarrow>
                  Inl (Error (''Analysis failed: '' @
                     (case truthy (message e) of Some m \<Rightarrow> m | None \<Rightarrow> ''Unknown analysis error'')))
              | None \<Rightarrow> Inr ())))"

definition durationSeconds :: "duration_value \<Rightarrow> int option" where
  \<comment> \<open>\<open>Math.floor(audio.duration)\<close> as it reaches the table: NaN and Infinity are serialised as null\<close>
  "durationSeconds d = (case d of Seconds q \<Rightarrow> Some \<lfloor>q\<rfloor> | NaN \<Rightarrow> None | Infinity \<Rightarrow> None)"

definition formattedDuration :: "duration_value \<Rightarrow> string" where
  "formattedDuration d =
     (case d of
        Seconds q \<Rightarrow> formatDuration \<lfloor>q\<rfloor>
      | NaN \<Rightarrow> ''NaN:NaN''
      | Infinity \<Rightarrow> ''Infinity:NaN'')"

definition handleDiscard :: "world \<Rightarrow> world" where
  "handleDiscard w = w\<lparr>audioUrlState := None, titleState := ''New Recording''\<rparr>"

definition throwInner :: "thrown \<Rightarrow> world \<Rightarrow> outcome \<times> world" where
  \<comment> \<open>the inner \<open>catch\<close> and \<open>finally\<close>\<close>
  "throwInner e w =
     (ProcessingError e, w\<lparr>toastsShown := toastsShown w @ [ProcessingErrorToast e], isProcessing := False\<rparr>)"

definition saveHighlights ::
  "collaborators \<Rightarrow> string \<Rightarrow> string \<Rightarrow> highlight list option \<Rightarrow> world \<Rightarrow> world" where
  \<comment> \<open>the parent row is looked up by its audio location with \<open>.single()\<close>, which yields a row
      only when exactly one row of the user matches; the result of the insert is not inspected\<close>
  "saveHighlights c uid publicUrl hs w =
     (case hs of
        None \<Rightarrow> w
      | Some hl \<Rightarrow>
          if hl = [] then w
          else
            (let w1 = w\<lparr>calls := calls w @ [SelectRecording]\<rparr> in
             case filter (\<lambda>r. user_id r = uid \<and> audio_url r = Some publicUrl) (recordingsTable w1) of
               [recordingData] \<Rightarrow>
                 (let w2 = w1\<lparr>calls := calls w1 @ [InsertHighlights]\<rparr> in
                  if highlightsError c then w2
                  else w2\<lparr>highlightsTable :=
                         highlightsTable w2 @
                         map (\<lambda>h. \<lparr>recording_id = row_id recordingData,
                                    timestamp_seconds = highlight_timestamp h,
                                    content = highlight_content h\<rparr>) hl\<rparr>)
             | _ \<Rightarrow> w1))"

definition persistRecording ::
  "collaborators \<Rightarrow> string \<Rightarrow> string \<Rightarrow> string \<Rightarrow> analysis_data option \<Rightarrow> world \<Rightarrow> outcome \<times> world" where
  \<comment> \<open>from \<open>Calculate duration from audio blob\<close> to the end of the \<open>try\<close> block\<close>
  "persistRecording c uid publicUrl transcript analysisData w =
     (case loadMetadata c of
        NeverLoads \<Rightarrow> (Pending, w)
      | LoadedMetadata d \<Rightarrow>
          (case analysisData of
             None \<Rightarrow> throwInner TypeError w
           | Some ad \<Rightarrow>
               (let w1 = w\<lparr>calls := calls w @ [InsertRecording]\<rparr> in
                case dbError c of
                  Some e \<Rightarrow> throwInner (Rejected e) w1
                | None \<Rightarrow>
                    (let row =
                       \<lparr>row_id = generatedId c, user_id = uid,
                        title = Some (if titleState w1 = [] then ''Untitled Recording'' else titleState w1),
                        audio_url = Some publicUrl,
                        transcription = Some transcript,
                        summary = analysis_summary ad,
                        sentiment = analysis_sentiment ad,
                        tags = analysis_tags ad,
                        duration_seconds = durationSeconds d,
                        duration_formatted = Some (formattedDuration d),
                        created_at = generatedCreatedAt c\<rparr>;
                         w2 = w1\<lparr>recordingsTable := recordingsTable w1 @ [row]\<rparr>;
                         w3 = saveHighlights c uid publicUrl (analysis_highlights ad) w2;
                         w4 = w3\<lparr>toastsShown := toastsShown w3 @ [RecordingSavedToast],
                                eventsDispatched := eventsDispatched w3 @ [''recording-saved'']\<rparr>
                     in (Saved, (handleDiscard w4)\<lparr>isProcessing := False\<rparr>)))))"

definition onloadend :: "collaborators \<Rightarrow> string \<Rightarrow> string \<Rightarrow> world \<Rightarrow> outcome \<times> world" where
  \<comment> \<open>the \<open>reader.onloadend\<close> callback\<close>
  "onloadend c uid publicUrl w =
     (case base64Audio (readerResult c) of
        None \<Rightarrow> throwInner TypeError w
      | Some audio \<Rightarrow>
          (let w1 = w\<lparr>calls := calls w @ [InvokeTranscribe audio]\<rparr> in
           case checkTranscription (invokeTranscribe c audio) of
             Inl e \<Rightarrow> throwInner e w1
           | Inr transcript \<Rightarrow>
               (let w2 = w1\<lparr>calls := calls w1 @ [InvokeAnalyze transcript]\<rparr> in
                case checkAnalysis (invokeAnalyze c transcript) of
                  Inl e \<Rightarrow> throwInner e w2
                | Inr u \<Rightarrow> persistRecording c uid publicUrl transcript (fst (invokeAnalyze c transcript)) w2)))"

definition handleSaveAndTranscribe ::
  "collaborators \<Rightarrow> string list option \<Rightarrow> string option \<Rightarrow> world \<Rightarrow> outcome \<times> world" where
  \<comment> \<open>second argument: the \<open>audioBlob\<close> of the recorder, if any (its content reaches the model through
      \<open>readerResult\<close>); third argument: the id of the signed-in user, if any\<close>
  "handleSaveAndTranscribe c recordedBlob user w =
     (case (recordedBlob, user) of
        (Some blob, Some uid) \<Rightarrow>
          (let w1 = w\<lparr>isProcessing := True\<rparr>;
               fileName = uid @ ''/'' @ toString (dateNow c) @ ''.webm''
           in case uploadError c of
                Some e \<Rightarrow>
                  (SaveError, w1\<lparr>toastsShown := toastsShown w1 @ [SaveErrorToast], isProcessing := False\<rparr>)
              | None \<Rightarrow>
                  onloadend c uid (getPublicUrl c fileName)
                    (w1\<lparr>storageObjects := storageObjects w1 @ [fileName]\<rparr>))
      | _ \<Rightarrow> (Skipped, w))"

text \<open>Collaborators and states for the examples.\<close>

definition emptyWorld :: world where
  "emptyWorld =
     \<lparr>recordingsTable = [], highlightsTable = [], storageObjects = [], calls = [],
      toastsShown = [], eventsDispatched = [], isProcessing = False,
      titleState = ''Team Sync'', audioUrlState = Some ''blob:recording''\<rparr>"

definition goodAnalysis :: analysis_data where
  "goodAnalysis =
     \<lparr>analysis_summary = Some ''The team planned the next meeting.'',
      keyPoints = Some [''agenda'', ''date'', ''owners''],
      analysis_sentiment = Some ''positive'',
      analysis_tags = Some [''meeting'', ''planning'', ''team''],
      analysis_highlights = Some [],
      actionItems = Some []\<rparr>"

definition happyRun :: collaborators where
  \<comment> \<open>every collaborator succeeds\<close>
  "happyRun =
     \<lparr>dateNow = 1754505222000,
      uploadError = None,
      getPublicUrl = (\<lambda>fileName. ''https://storage/recordings/'' @ fileName),
      readerResult = Some ''data:audio/webm;base64,GkXfo59ChoEB'',
      invokeTranscribe =
        (\<lambda>audio. (Some \<lparr>text_field = Some ''Hello team'', language = Some ''auto-detected''\<rparr>, None)),
      invokeAnalyze = (\<lambda>transcript. (Some goodAnalysis, None)),
      loadMetadata = LoadedMetadata (Seconds 65),
      dbError = None,
      generatedId = ''r1'',
      generatedCreatedAt = ''2025-08-06T18:33:42Z'',
      highlightsError = False\<rparr>"

definition oversizedAudio :: string where
  \<comment> \<open>an encoded payload of 10,000,001 characters\<close>
  "oversizedAudio = replicate 10000001 (CHR ''A'')"

definition recordedChunks :: "string list" where
  "recordedChunks = [''chunk-0'', ''chunk-1'']"



definition noSummaryRun :: collaborators where
  \<comment> \<open>the Analysis Service answers with an object that has no summary, and no error\<close>
  "noSummaryRun =
     happyRun\<lparr>invokeAnalyze := (\<lambda>transcript. (Some (goodAnalysis\<lparr>analysis_summary := None\<rparr>), None))\<rparr>"

definition failedAnalysisRun :: collaborators where
  \<comment> \<open>the invocation of the Analysis Service returns an error and no data\<close>
  "failedAnalysisRun =
     happyRun\<lparr>invokeAnalyze :=
       (\<lambda>transcript. (None, Some (FnError (Some ''Edge Function returned a non-2xx status code''))))\<rparr>"

definition stalledRun :: collaborators where
  \<comment> \<open>the local audio element never fires \<open>loadedmetadata\<close>\<close>
  "stalledRun = happyRun\<lparr>loadMetadata := NeverLoads\<rparr>"

definition invalidDurationRun :: collaborators where
  \<comment> \<open>the metadata loads with an infinite duration\<close>
  "invalidDurationRun = happyRun\<lparr>loadMetadata := LoadedMetadata Infinity\<rparr>"

definition oversizedRun :: collaborators where
  \<comment> \<open>the recorded audio encodes to more than 10,000,000 characters\<close>
  "oversizedRun = happyRun\<lparr>readerResult := Some (''data:audio/webm;base64,'' @ oversizedAudio)\<rparr>"

section \<open>Verification\<close>

subsection \<open>Recorder: the duration display\<close>

lemma natToString_small: "n < 10 \<Longrightarrow> natToString n = [digit n]"
  by (simp add: natToString.simps)

lemma natToString_two: "10 \<le> n \<Longrightarrow> n < 100 \<Longrightarrow> natToString n = [digit (n div 10), digit (n mod 10)]"
  by (subst natToString.simps) (simp add: natToString_small)

lemma natToString_nonempty: "natToString n \<noteq> []"
  by (subst natToString.simps) simp

lemma length_natToString: "10 \<le> n \<Longrightarrow> 2 \<le> length (natToString n)"
  using natToString_nonempty [of "n div 10"]
  by (subst natToString.simps) (cases "natToString (n div 10)"; simp)

lemma padStart_two_digits:
  "padStart 2 (CHR ''0'') (natToString n) =
     (if n < 100 then [digit (n div 10), digit (n mod 10)] else natToString n)"
proof -
  have z: "digit 0 = CHR ''0''" by (simp add: digit_def char_of_eq_iff)
  consider "n < 10" | "10 \<le> n" "n < 100" | "100 \<le> n" by linarith
  then show ?thesis
  proof cases
    case 1 then show ?thesis by (simp add: padStart_def natToString_small z)
  next
    case 2 then show ?thesis by (simp add: padStart_def natToString_two)
  next
    case 3
    then have "2 \<le> length (natToString n)" by (simp add: length_natToString)
    with 3 show ?thesis by (simp add: padStart_def)
  qed
qed

lemma formatDuration_nonneg:
  assumes "0 \<le> s"
  shows "formatDuration s =
     (let m = nat s div 60; r = nat s mod 60
      in (if m < 100 then [digit (m div 10), digit (m mod 10)] else natToString m) @ '':'' @
         [digit (r div 10), digit (r mod 10)])"
proof -
  have m: "nat (s div 60) = nat s div 60" using assms by (simp add: nat_div_distrib)
  have r: "nat (s mod 60) = nat s mod 60" using assms by (simp add: nat_mod_distrib)
  have d: "0 \<le> s div 60" "0 \<le> s mod 60" using assms by (simp_all add: pos_imp_zdiv_nonneg_iff)
  have j: "js_rem s 60 = s mod 60" using assms by (simp add: js_rem_def)
  have t1: "toString (s div 60) = natToString (nat s div 60)"
    using d m by (simp add: toString_def)
  have t2: "toString (s mod 60) = natToString (nat s mod 60)"
    using d r by (simp add: toString_def)
  have lt: "nat s mod 60 < 100" by (rule less_trans [OF mod_less_divisor]) simp_all
  show ?thesis
    unfolding formatDuration_def Let_def j t1 t2 padStart_two_digits
    using lt by simp
qed

lemma ticks_refs:
  "startTimeRef (ticks ts st) = startTimeRef st \<and> intervalRef (ticks ts st) = intervalRef st"
  by (induction ts arbitrary: st) (simp_all add: updateDuration_def Let_def)

lemma ticks_snoc: "ticks (ts @ [t]) st = ticks [t] (ticks ts st)"
  by (induction ts arbitrary: st) simp_all

text \<open>
  Claim C10. After a successful \<open>startRecording\<close> at clock reading \<open>t0\<close> and with no pause,
  every firing of the one-second interval at clock reading \<open>t\<close> sets the duration display to
  the elapsed wall-clock time \<open>t - t0\<close> rounded down to whole seconds, written as two-digit
  zero-padded minutes, a colon and two-digit zero-padded seconds (minutes beyond 99 are
  written in full). The clock readings are those of \<open>Date.now()\<close>, positive and not running
  backwards. At 65 seconds the display reads \<open>01:05\<close>.
\<close>

theorem duration_display:
  assumes "0 < t0" and "t0 \<le> t"
  shows "duration (ticks (ts @ [t]) (startRecording None t0 st)) =
     (let s = nat ((t - t0) div 1000); m = s div 60; r = s mod 60
      in (if m < 100 then [digit (m div 10), digit (m mod 10)] else natToString m) @ '':'' @
         [digit (r div 10), digit (r mod 10)])"
proof -
  let ?st = "ticks ts (startRecording None t0 st)"
  have a: "startTimeRef ?st = t0" "intervalRef ?st"
    by (simp_all add: ticks_refs startRecording_def)
  have "0 \<le> (t - t0) div 1000" using assms by (simp add: pos_imp_zdiv_nonneg_iff)
  then show ?thesis
    using assms a by (simp add: ticks_snoc updateDuration_def formatDuration_nonneg Let_def)
qed

theorem duration_display_witness:
  "(0::int) < 1700000000000 \<and> (1700000000000::int) \<le> 1700000065000 \<and>
   duration (ticks ([1700000001000, 1700000002003] @ [1700000065000])
     (startRecording None 1700000000000 initial_recorder)) = ''01:05''"
  using duration_display [of 1700000000000 1700000065000 "[1700000001000, 1700000002003]" initial_recorder]
  by (simp add: digit_def char_of_eq_iff)

subsection \<open>Graph view: the dominant sentiment\<close>

lemma ownKeys_Nil: "ownKeys [] = []"
  by (simp add: ownKeys_def)

lemma set_ownKeys: "set (ownKeys obj) = fst ` set obj"
  by (simp add: ownKeys_def)

lemma ownKeys_append: "ownKeys (a @ b) = ownKeys a @ ownKeys b"
  by (simp add: ownKeys_def)

lemma ownKeys_Cons: "ownKeys (e # b) = fst e # ownKeys b"
  by (simp add: ownKeys_def)

lemma ownKeys_setProp:
  "ownKeys (setProp obj k v) = (if k \<in> set (ownKeys obj) then ownKeys obj else ownKeys obj @ [k])"
  unfolding ownKeys_def by (induction obj) (auto simp del: set_map)

lemma map_of_setProp: "map_of (setProp obj k v) = (map_of obj)(k \<mapsto> v)"
  by (induction obj) auto

lemma keys_countStep:
  "ownKeys (countStep acc k) = (if k \<in> set (ownKeys acc) then ownKeys acc else ownKeys acc @ [k])"
  by (simp add: countStep_def ownKeys_setProp)

lemma keys_foldl_countStep_snoc:
  "ownKeys (foldl countStep acc (xs @ [x])) =
     (if x \<in> set (ownKeys (foldl countStep acc xs)) then ownKeys (foldl countStep acc xs)
      else ownKeys (foldl countStep acc xs) @ [x])"
  by (simp add: keys_countStep)

lemma set_keys_foldl_countStep:
  "set (ownKeys (foldl countStep acc xs)) = set (ownKeys acc) \<union> set xs"
  by (induction xs arbitrary: acc) (auto simp: keys_countStep)

lemma distinct_keys_foldl_countStep:
  "distinct (ownKeys acc) \<Longrightarrow> distinct (ownKeys (foldl countStep acc xs))"
proof (induction xs arbitrary: acc)
  case Nil then show ?case by simp
next
  case (Cons x xs)
  have "distinct (ownKeys (countStep acc x))"
    using Cons.prems by (simp add: keys_countStep)
  then show ?case using Cons.IH by simp
qed

lemma map_of_foldl_countStep:
  "map_of (foldl countStep acc xs) k =
     (if k \<in> set xs \<or> k \<in> set (ownKeys acc)
      then Some (count_list xs k + (case map_of acc k of None \<Rightarrow> 0 | Some c \<Rightarrow> c))
      else None)"
proof (induction xs arbitrary: acc)
  case Nil
  show ?case by (auto simp: set_ownKeys map_of_eq_None_iff[symmetric] simp del: map_of_eq_None_iff split: option.splits)
next
  case (Cons x xs)
  have k: "set (ownKeys (countStep acc x)) = insert x (set (ownKeys acc))"
    by (auto simp: keys_countStep)
  show ?case
    unfolding foldl_Cons Cons.IH k
    by (auto simp: countStep_def getProp_def map_of_setProp split: option.splits)
qed

lemma takeWhile_snoc_mono:
  "set (takeWhile P xs) \<subseteq> set (takeWhile P (xs @ ys))"
proof (cases "\<forall>y \<in> set xs. P y")
  case True
  have a: "takeWhile P xs = xs" using True by (simp only: takeWhile_eq_all_conv)
  have b: "takeWhile P (xs @ ys) = xs @ takeWhile P ys" using True by (intro takeWhile_append2) blast
  show ?thesis unfolding a b by simp
next
  case False
  then obtain y where "y \<in> set xs" "\<not> P y" by blast
  then have "takeWhile P (xs @ ys) = takeWhile P xs" by (rule takeWhile_append1)
  then show ?thesis by (simp only: subset_refl)
qed

lemma keys_order_foldl_countStep:
  "ownKeys (foldl countStep [] xs) = pre @ k # post \<Longrightarrow> set pre \<subseteq> set (takeWhile (\<lambda>x. x \<noteq> k) xs)"
proof (induction xs arbitrary: pre k post rule: rev_induct)
  case Nil then show ?case by (simp add: ownKeys_Nil)
next
  case (snoc x xs)
  let ?K = "ownKeys (foldl countStep [] xs)"
  have sK: "set ?K = set xs" by (simp add: set_keys_foldl_countStep ownKeys_Nil)
  show ?case
  proof (cases "x \<in> set ?K")
    case True
    then have "?K = pre @ k # post" using snoc.prems by (simp add: keys_countStep)
    then have "set pre \<subseteq> set (takeWhile (\<lambda>x. x \<noteq> k) xs)" by (rule snoc.IH)
    moreover have "set (takeWhile (\<lambda>x. x \<noteq> k) xs) \<subseteq> set (takeWhile (\<lambda>x. x \<noteq> k) (xs @ [x]))"
      by (rule takeWhile_snoc_mono)
    ultimately show ?thesis by blast
  next
    case False
    then have eq: "?K @ [x] = pre @ k # post" using snoc.prems by (simp add: keys_countStep)
    show ?thesis
    proof (cases post rule: rev_cases)
      case Nil
      with eq have "?K = pre" "x = k" by simp_all
      moreover have "takeWhile (\<lambda>y. y \<noteq> x) (xs @ [x]) = xs"
        using False sK by (simp add: takeWhile_append)
      ultimately show ?thesis using sK by auto
    next
      case (snoc post' y)
      with eq have "?K = pre @ k # post'" by simp
      then have "set pre \<subseteq> set (takeWhile (\<lambda>x. x \<noteq> k) xs)" by (rule snoc.IH)
      moreover have "set (takeWhile (\<lambda>x. x \<noteq> k) xs) \<subseteq> set (takeWhile (\<lambda>x. x \<noteq> k) (xs @ [x]))"
        by (rule takeWhile_snoc_mono)
      ultimately show ?thesis by blast
    qed
  qed
qed

lemma foldl_pickEntry_split:
  "\<exists>pre post. e # es = pre @ foldl pickEntry e es # post \<and>
     (\<forall>x \<in> set pre. snd x \<le> snd (foldl pickEntry e es)) \<and>
     (\<forall>x \<in> set post. snd x < snd (foldl pickEntry e es))"
proof (induction es arbitrary: e rule: rev_induct)
  case Nil
  have "[e] = [] @ foldl pickEntry e [] # []" by simp
  then show ?case by (metis empty_iff list.set(1))
next
  case (snoc b es)
  let ?a = "foldl pickEntry e es"
  obtain pre post where s: "e # es = pre @ ?a # post"
    and p1: "\<forall>x \<in> set pre. snd x \<le> snd ?a" and p2: "\<forall>x \<in> set post. snd x < snd ?a"
    using snoc.IH by blast
  show ?case
  proof (cases "snd ?a > snd b")
    case True
    then have r: "foldl pickEntry e (es @ [b]) = ?a" by (simp add: pickEntry_def)
    have "e # es @ [b] = pre @ ?a # (post @ [b])" using s by simp
    moreover have "\<forall>x \<in> set (post @ [b]). snd x < snd ?a" using p2 True by auto
    ultimately show ?thesis unfolding r using p1 by blast
  next
    case False
    then have r: "foldl pickEntry e (es @ [b]) = b" by (simp add: pickEntry_def)
    have "e # es @ [b] = (e # es) @ b # []" by simp
    moreover have "\<forall>x \<in> set (e # es). snd x \<le> snd b"
    proof
      fix x assume "x \<in> set (e # es)"
      then have "x \<in> set pre \<or> x = ?a \<or> x \<in> set post" unfolding s by auto
      then show "snd x \<le> snd b" using p1 p2 False by force
    qed
    ultimately show ?thesis unfolding r by (metis empty_iff list.set(1))
  qed
qed

lemma entries_no_index:
  "\<forall>e \<in> set obj. \<not> isArrayIndex (fst e) \<Longrightarrow> entries obj = obj"
proof -
  assume a: "\<forall>e \<in> set obj. \<not> isArrayIndex (fst e)"
  then have "filter (\<lambda>e. isArrayIndex (fst e)) obj = []" by (simp add: filter_empty_conv)
  moreover from a have "filter (\<lambda>e. \<not> isArrayIndex (fst e)) obj = obj" by (simp add: filter_id_conv)
  ultimately show ?thesis by (simp add: entries_def)
qed

text \<open>
  Claim C8, as amended. For every non-empty list of sentiment labels (labels that are
  neither member names of \<open>Object.prototype\<close> nor array indices, so that the counting object
  lists them in the order of their first occurrence), \<open>getDominantSentiment\<close> returns a
  label of the list with the greatest number of occurrences; when several labels tie for
  the greatest number, it returns the one whose first occurrence comes last: every other
  tied label occurs before the first occurrence of the result.
\<close>

theorem dominant_sentiment_last_of_ties:
  assumes ne: "sentiments \<noteq> []"
    and plain: "\<forall>s \<in> set sentiments. plainKey s \<and> \<not> isArrayIndex s"
  shows "\<exists>r. getDominantSentiment sentiments = Some r \<and> r \<in> set sentiments \<and>
           (\<forall>s \<in> set sentiments. count_list sentiments s \<le> count_list sentiments r) \<and>
           (\<forall>s \<in> set sentiments. s \<noteq> r \<and> count_list sentiments s = count_list sentiments r
               \<longrightarrow> s \<in> set (takeWhile (\<lambda>x. x \<noteq> r) sentiments))"
proof -
  let ?C = "foldl countStep [] sentiments"
  have keys: "set (ownKeys ?C) = set sentiments" by (simp add: set_keys_foldl_countStep ownKeys_Nil)
  have dist: "distinct (ownKeys ?C)" by (rule distinct_keys_foldl_countStep) (simp add: ownKeys_Nil)
  have "\<forall>e \<in> set ?C. \<not> isArrayIndex (fst e)" using keys plain by (simp add: set_ownKeys) blast
  then have ent: "entries ?C = ?C" by (rule entries_no_index)
  have "?C \<noteq> []"
  proof
    assume "?C = []"
    then have "set sentiments = {}" using keys by (simp add: ownKeys_Nil)
    then show False using ne by simp
  qed
  then obtain e es where C: "?C = e # es" by (cases ?C) auto
  let ?r = "foldl pickEntry e es"
  have res: "getDominantSentiment sentiments = Some (fst ?r)"
    using ent C by (simp add: getDominantSentiment_def Let_def)
  obtain pre post where s: "?C = pre @ ?r # post"
    and p1: "\<forall>x \<in> set pre. snd x \<le> snd ?r" and p2: "\<forall>x \<in> set post. snd x < snd ?r"
    using foldl_pickEntry_split [of e es] C by auto
  have cnt: "snd x = count_list sentiments (fst x)" if "x \<in> set ?C" for x
  proof -
    have "(fst x, snd x) \<in> set ?C" using that by simp
    moreover have "distinct (map fst ?C)" using dist by (simp add: ownKeys_def)
    ultimately have "map_of ?C (fst x) = Some (snd x)" by (rule map_of_is_SomeI [rotated])
    then show ?thesis by (simp add: map_of_foldl_countStep split: if_splits)
  qed
  have rin: "?r \<in> set ?C" using s by (metis in_set_conv_decomp)
  have r1: "fst ?r \<in> set sentiments" using rin keys by (simp add: set_ownKeys) blast
  have entry: "\<exists>x \<in> set ?C. fst x = t" if "t \<in> set sentiments" for t
  proof -
    have "t \<in> fst ` set ?C" using that keys by (simp add: set_ownKeys)
    then show ?thesis by auto
  qed
  have r2: "count_list sentiments t \<le> count_list sentiments (fst ?r)" if t: "t \<in> set sentiments" for t
  proof -
    from entry [OF t] obtain x where x: "x \<in> set ?C" "fst x = t" by blast
    have "x \<in> set pre \<or> x = ?r \<or> x \<in> set post" using x(1) by (subst (asm) s) auto
    then have "snd x \<le> snd ?r" using p1 p2 by force
    then show ?thesis using cnt [OF x(1)] cnt [OF rin] x(2) by simp
  qed
  have r3: "t \<in> set (takeWhile (\<lambda>x. x \<noteq> fst ?r) sentiments)"
    if t: "t \<in> set sentiments" "t \<noteq> fst ?r" "count_list sentiments t = count_list sentiments (fst ?r)" for t
  proof -
    from entry [OF t(1)] obtain x where x: "x \<in> set ?C" "fst x = t" by blast
    have "snd x = snd ?r" using cnt [OF x(1)] cnt [OF rin] x(2) t(3) by simp
    moreover have "x \<noteq> ?r" using x(2) t(2) by auto
    moreover have "x \<in> set pre \<or> x = ?r \<or> x \<in> set post" using x(1) by (subst (asm) s) auto
    ultimately have "x \<in> set pre" using p2 by force
    then have "t \<in> set (ownKeys pre)" using x(2) by (simp add: set_ownKeys) blast
    moreover have "ownKeys ?C = ownKeys pre @ fst ?r # ownKeys post"
      by (subst s) (simp add: ownKeys_append ownKeys_Cons)
    then have "set (ownKeys pre) \<subseteq> set (takeWhile (\<lambda>x. x \<noteq> fst ?r) sentiments)"
      by (rule keys_order_foldl_countStep)
    ultimately show ?thesis by blast
  qed
  show ?thesis using res r1 r2 r3 by blast
qed

theorem dominant_sentiment_last_of_ties_witness:
  "[''positive'', ''negative'', ''neutral''] \<noteq> [] \<and>
   (plainKey ''positive'' \<and> \<not> isArrayIndex ''positive'') \<and>
   (plainKey ''negative'' \<and> \<not> isArrayIndex ''negative'') \<and>
   (plainKey ''neutral'' \<and> \<not> isArrayIndex ''neutral'') \<and>
   (\<exists>r. getDominantSentiment [''positive'', ''negative'', ''neutral''] = Some r \<and>
        r \<in> set [''positive'', ''negative'', ''neutral''] \<and>
        (\<forall>s \<in> set [''positive'', ''negative'', ''neutral''].
           count_list [''positive'', ''negative'', ''neutral''] s
             \<le> count_list [''positive'', ''negative'', ''neutral''] r) \<and>
        (\<forall>s \<in> set [''positive'', ''negative'', ''neutral''].
           s \<noteq> r \<and> count_list [''positive'', ''negative'', ''neutral''] s =
             count_list [''positive'', ''negative'', ''neutral''] r
           \<longrightarrow> s \<in> set (takeWhile (\<lambda>x. x \<noteq> r) [''positive'', ''negative'', ''neutral''])))"
proof -
  have ne: "[''positive'', ''negative'', ''neutral''] \<noteq> []" by simp
  have p: "plainKey ''positive'' \<and> \<not> isArrayIndex ''positive''"
    "plainKey ''negative'' \<and> \<not> isArrayIndex ''negative''"
    "plainKey ''neutral'' \<and> \<not> isArrayIndex ''neutral''"
    by (simp_all add: plainKey_def objectPrototypeNames_def isArrayIndex_def isDigit_def code_def)
  have h: "\<forall>s \<in> set [''positive'', ''negative'', ''neutral'']. plainKey s \<and> \<not> isArrayIndex s"
    using p by simp
  note c = dominant_sentiment_last_of_ties [OF ne h]
  show ?thesis
    apply (intro conjI)
           apply (rule ne)
          apply (rule p(1) [THEN conjunct1])
         apply (rule p(1) [THEN conjunct2])
        apply (rule p(2) [THEN conjunct1])
       apply (rule p(2) [THEN conjunct2])
      apply (rule p(3) [THEN conjunct1])
     apply (rule p(3) [THEN conjunct2])
    apply (rule c)
    done
qed

theorem dominant_sentiment_first_of_ties_counterexample:
  "count_list [''positive'', ''negative''] ''positive'' =
     count_list [''positive'', ''negative''] ''negative'' \<and>
   hd [''positive'', ''negative''] = ''positive'' \<and>
   getDominantSentiment [''positive'', ''negative''] = Some ''negative''"
  by (simp add: getDominantSentiment_def countStep_def getProp_def entries_def isArrayIndex_def
      isDigit_def code_def pickEntry_def)

subsection \<open>Search view\<close>

lemma startsWith_iff: "startsWith s p \<longleftrightarrow> (\<exists>suf. s = p @ suf)"
  by (induction s p rule: startsWith.induct) auto

lemma includesStr_iff: "includesStr hay needle \<longleftrightarrow> isSubstringOf needle hay"
proof (induction hay)
  case Nil
  show ?case by (auto simp: isSubstringOf_def)
next
  case (Cons c cs)
  have "isSubstringOf needle (c # cs) \<longleftrightarrow>
        (\<exists>after. c # cs = needle @ after) \<or> isSubstringOf needle cs"
  proof
    assume "isSubstringOf needle (c # cs)"
    then obtain before after where e: "c # cs = before @ needle @ after"
      unfolding isSubstringOf_def by blast
    show "(\<exists>after. c # cs = needle @ after) \<or> isSubstringOf needle cs"
    proof (cases before)
      case Nil then show ?thesis using e by auto
    next
      case (Cons b bs)
      then have "cs = bs @ needle @ after" using e by simp
      then show ?thesis unfolding isSubstringOf_def by blast
    qed
  next
    assume "(\<exists>after. c # cs = needle @ after) \<or> isSubstringOf needle cs"
    then show "isSubstringOf needle (c # cs)"
    proof
      assume "\<exists>after. c # cs = needle @ after"
      then obtain after where "c # cs = [] @ needle @ after" by auto
      then show ?thesis unfolding isSubstringOf_def by blast
    next
      assume "isSubstringOf needle cs"
      then obtain before after where "cs = before @ needle @ after"
        unfolding isSubstringOf_def by blast
      then have "c # cs = (c # before) @ needle @ after" by simp
      then show ?thesis unfolding isSubstringOf_def by blast
    qed
  qed
  then show ?case using Cons.IH by (simp add: startsWith_iff)
qed

lemma fieldIncludes_iff:
  "fieldIncludes field (toLowerCase q) \<longleftrightarrow>
     (\<exists>s \<in> set_option field. isSubstringOf (toLowerCase q) (toLowerCase s))"
  by (cases field) (simp_all add: fieldIncludes_def includesStr_iff)

lemma matchesQuery_iff: "matchesQuery query recording \<longleftrightarrow> specMatches query recording"
  unfolding matchesQuery_def specMatches_def Let_def fieldIncludes_iff
  by (cases "tags recording") (auto simp: list_ex_iff includesStr_iff)

lemmas search_eval =
  handleSearch_def matchesQuery_def fieldIncludes_def toSearchResult_def teamSync_def
  toLowerCase_def toLowerCaseChar_def trim_def isWhiteSpace_def code_def truthy_def
  char_of_eq_iff Let_def

text \<open>
  Claim C9, as amended. For every loaded corpus and every query that is not blank (not empty
  after trimming white space), the search returns, in corpus order, exactly the recordings
  for which the lowercased query is a substring of the lowercased title, transcription,
  summary or of at least one lowercased tag; for a blank query, which includes every
  non-empty query made of white space only, it returns nothing. The corpus holding the
  recording titled \<open>Team Sync\<close> whose transcription contains \<open>roadmap\<close> is returned for the
  queries \<open>team\<close>, \<open>Sync\<close> and \<open>roadmap\<close>, and not for a query that occurs in none of its
  fields.
\<close>

theorem search_returns_substring_matches:
  "(trim query \<noteq> [] \<longrightarrow>
      map result_id (handleSearch localeDate allRecordings query) =
      map row_id (filter (specMatches query) allRecordings)) \<and>
   (trim query = [] \<longrightarrow> handleSearch localeDate allRecordings query = []) \<and>
   map result_id (handleSearch localeDate [teamSync] ''team'') = [row_id teamSync] \<and>
   map result_id (handleSearch localeDate [teamSync] ''Sync'') = [row_id teamSync] \<and>
   map result_id (handleSearch localeDate [teamSync] ''roadmap'') = [row_id teamSync] \<and>
   handleSearch localeDate [teamSync] ''budget'' = []"
proof -
  have f: "filter (matchesQuery query) allRecordings = filter (specMatches query) allRecordings"
    by (rule filter_cong) (simp_all add: matchesQuery_iff)
  have 1: "trim query \<noteq> [] \<longrightarrow>
      map result_id (handleSearch localeDate allRecordings query) =
      map row_id (filter (specMatches query) allRecordings)"
    by (simp add: handleSearch_def f [symmetric] toSearchResult_def comp_def)
  have 2: "trim query = [] \<longrightarrow> handleSearch localeDate allRecordings query = []"
    by (simp add: handleSearch_def)
  have 3: "map result_id (handleSearch localeDate [teamSync] ''team'') = [row_id teamSync]"
    by (simp add: search_eval)
  have 4: "map result_id (handleSearch localeDate [teamSync] ''Sync'') = [row_id teamSync]"
    by (simp add: search_eval)
  have 5: "map result_id (handleSearch localeDate [teamSync] ''roadmap'') = [row_id teamSync]"
    by (simp add: search_eval)
  have 6: "handleSearch localeDate [teamSync] ''budget'' = []"
    by (simp add: search_eval)
  from 1 2 3 4 5 6 show ?thesis by (intro conjI)
qed

theorem search_returns_substring_matches_witness:
  "trim ''Sync'' \<noteq> [] \<and>
   map result_id (handleSearch id [teamSync] ''Sync'') =
   map row_id (filter (specMatches ''Sync'') [teamSync]) \<and>
   map row_id (filter (specMatches ''Sync'') [teamSync]) = [''r1'']"
proof -
  have t: "trim ''Sync'' \<noteq> []"
    by (simp add: trim_def isWhiteSpace_def code_def)
  have m: "map result_id (handleSearch id [teamSync] ''Sync'') =
      map row_id (filter (specMatches ''Sync'') [teamSync])"
    using search_returns_substring_matches [of "''Sync''" id "[teamSync]"] t by blast
  have "map result_id (handleSearch id [teamSync] ''Sync'') = [''r1'']"
    by (simp add: search_eval)
  with m t show ?thesis by simp
qed

theorem search_blank_query_counterexample:
  "'' '' \<noteq> [] \<and> specMatches '' '' teamSync \<and>
   map result_id (handleSearch id [teamSync] '' '') \<noteq> map row_id (filter (specMatches '' '') [teamSync])"
proof -
  have m: "matchesQuery '' '' teamSync"
    by (simp add: search_eval)
  then have s: "specMatches '' '' teamSync" by (simp add: matchesQuery_iff)
  have "handleSearch id [teamSync] '' '' = []"
    by (simp add: search_eval)
  with s show ?thesis by simp
qed

subsection \<open>Graph view: the tallies built from the recordings\<close>










lemma strLess_asym: "strLess s t \<Longrightarrow> \<not> strLess t s"
  by (induction s t rule: strLess.induct) auto

lemma strLess_irrefl: "\<not> strLess s s"
  using strLess_asym by blast

lemma set_entries: "set (entries obj) = set obj"
  by (auto simp: entries_def)








lemma keys_connections_stepTag:
  "set (ownKeys (tagConnections (stepTag tgs snt t tag))) = insert tag (set (ownKeys (tagConnections t)))"
  by (auto simp: stepTag_def ownKeys_setProp)



lemma keys_connections_foldl_stepTag:
  "set (ownKeys (tagConnections (foldl (stepTag tgs snt) t xs))) = set (ownKeys (tagConnections t)) \<union> set xs"
  by (induction xs arbitrary: t) (auto simp: keys_connections_stepTag)




lemma keys_connections_foldl_stepRecording:
  "set (ownKeys (tagConnections (foldl stepRecording t rs))) =
     set (ownKeys (tagConnections t)) \<union> set (allTags rs)"
  by (induction rs arbitrary: t)
     (auto simp: allTags_def stepRecording_def keys_connections_foldl_stepTag)









lemma distinct_keys_entries:
  assumes "distinct (ownKeys obj)"
  shows "distinct (map fst (entries obj))"
proof -
  have d: "distinct obj" using assms by (auto simp: ownKeys_def distinct_map)
  have i: "inj_on fst (set obj)" using assms by (auto simp: ownKeys_def distinct_map)
  have "distinct (entries obj)" using d by (auto simp: entries_def)
  moreover have "inj_on fst (set (entries obj))" using i by (simp add: set_entries)
  ultimately show ?thesis by (simp add: distinct_map)
qed











subsection \<open>Graph view: nodes, edges and weights\<close>













subsection \<open>Analysis service: the fallback on a parse failure\<close>

text \<open>
  Claim C2. For every analyze-recording request (other than the pre-flight) with a
  non-empty text and a configured API key, when the upstream call succeeds and the text of
  its first candidate, stripped of the code-fence markup and trimmed, does not parse as
  JSON, the service answers with HTTP status 200 and the fixed fallback object: its
  \<open>summary\<close> is \<open>Analysis could not be completed due to parsing error\<close>, its \<open>sentiment\<close> is
  \<open>neutral\<close>, its \<open>tags\<close> are \<open>[transcription]\<close>, and its \<open>highlights\<close> and \<open>actionItems\<close> are empty
  arrays.
\<close>

theorem analysis_parse_failure_fallback:
  assumes "httpMethod \<noteq> OPTIONS"
    and "truthy txt = Some t"
    and "truthy geminiApiKey = Some key"
    and "fetch key t = Responded r"
    and "resp_ok r"
    and "resp_json r = CandidateText (Some c)"
    and "parse (trim (stripFences c)) = None"
  shows "analyze_recording parse geminiApiKey fetch httpMethod (Payload txt) =
           \<lparr>status = 200, body = Json fallbackAnalysis\<rparr> \<and>
         jsonField fallbackAnalysis ''summary'' =
           Some (JStr ''Analysis could not be completed due to parsing error'') \<and>
         jsonField fallbackAnalysis ''sentiment'' = Some (JStr ''neutral'') \<and>
         jsonField fallbackAnalysis ''tags'' = Some (JArr [JStr ''transcription'']) \<and>
         jsonField fallbackAnalysis ''highlights'' = Some (JArr []) \<and>
         jsonField fallbackAnalysis ''actionItems'' = Some (JArr [])"
proof -
  have "parseAnalysis parse (Some c) = fallbackAnalysis"
    using assms(7) by (cases "truthy (Some c)") (auto simp: parseAnalysis_def truthy_def split: if_splits)
  then have "analyzeText parse geminiApiKey fetch (Payload txt) = Inr fallbackAnalysis"
    using assms(2-6) by (simp add: analyzeText_def)
  then have "analyze_recording parse geminiApiKey fetch httpMethod (Payload txt) =
           \<lparr>status = 200, body = Json fallbackAnalysis\<rparr>"
    using assms(1) by (simp add: analyze_recording_def)
  then show ?thesis by (simp add: jsonField_def fallbackAnalysis_def)
qed

theorem analysis_parse_failure_fallback_witness:
  "POST \<noteq> OPTIONS \<and>
   truthy (Some ''We planned the team meeting'') = Some ''We planned the team meeting'' \<and>
   truthy (Some ''secret'') = Some ''secret'' \<and>
   chattyUpstream ''secret'' ''We planned the team meeting'' = Responded chattyResponse \<and>
   resp_ok chattyResponse \<and>
   resp_json chattyResponse = CandidateText (Some ''Sure! Here is the analysis.'') \<and>
   parseEmptyObjectOnly (trim (stripFences ''Sure! Here is the analysis.'')) = None \<and>
   analyze_recording parseEmptyObjectOnly (Some ''secret'') chattyUpstream POST
     (Payload (Some ''We planned the team meeting'')) =
   \<lparr>status = 200, body = Json fallbackAnalysis\<rparr>"
proof -
  have h1: "POST \<noteq> OPTIONS" by simp
  have h2: "truthy (Some ''We planned the team meeting'') = Some ''We planned the team meeting''"
    by (simp add: truthy_def)
  have h3: "truthy (Some ''secret'') = Some ''secret''" by (simp add: truthy_def)
  have h4: "chattyUpstream ''secret'' ''We planned the team meeting'' = Responded chattyResponse"
    by (simp add: chattyUpstream_def)
  have h5: "resp_ok chattyResponse" by (simp add: chattyResponse_def)
  have h6: "resp_json chattyResponse = CandidateText (Some ''Sure! Here is the analysis.'')"
    by (simp add: chattyResponse_def)
  have h7: "parseEmptyObjectOnly (trim (stripFences ''Sure! Here is the analysis.'')) = None"
    by (simp add: parseEmptyObjectOnly_def trim_def isWhiteSpace_def code_def)
  from analysis_parse_failure_fallback
    [where fetch = chattyUpstream and parse = parseEmptyObjectOnly, OF h1 h2 h3 h4 h5 h6 h7]
    h1 h2 h3 h4 h5 h6 h7
  show ?thesis by blast
qed

subsection \<open>Pipeline: transcription failure\<close>

lemma throwInner_simps:
  "fst (throwInner e w) = ProcessingError e"
  "recordingsTable (snd (throwInner e w)) = recordingsTable w"
  "highlightsTable (snd (throwInner e w)) = highlightsTable w"
  "calls (snd (throwInner e w)) = calls w"
  by (simp_all add: throwInner_def)





lemmas pipeline_eval =
  handleSaveAndTranscribe_def onloadend_def persistRecording_def saveHighlights_def
  base64Audio_def elementAt_def checkTranscription_def transcriptionText_def truthy_def
  checkAnalysis_def analysisSummary_def happyRun_def goodAnalysis_def emptyWorld_def
  handleDiscard_def throwInner_def durationSeconds_def formattedDuration_def
  recordedChunks_def Let_def



subsection \<open>Pipeline: the analysis step\<close>

lemma recordingsTable_saveHighlights:
  "recordingsTable (saveHighlights c uid url hs w) = recordingsTable w"
  by (auto simp: saveHighlights_def Let_def split: option.splits list.splits)

lemma handleSaveAndTranscribe_reaches_analysis:
  assumes "uploadError c = None" and "base64Audio (readerResult c) = Some audio"
    and "checkTranscription (invokeTranscribe c audio) = Inr transcript"
  shows "handleSaveAndTranscribe c (Some blob) (Some uid) w =
     (case checkAnalysis (invokeAnalyze c transcript) of
        Inl e \<Rightarrow>
          throwInner e
            (w\<lparr>isProcessing := True,
               storageObjects := storageObjects w @ [uid @ ''/'' @ toString (dateNow c) @ ''.webm''],
               calls := calls w @ [InvokeTranscribe audio, InvokeAnalyze transcript]\<rparr>)
      | Inr u \<Rightarrow>
          persistRecording c uid (getPublicUrl c (uid @ ''/'' @ toString (dateNow c) @ ''.webm''))
            transcript (fst (invokeAnalyze c transcript))
            (w\<lparr>isProcessing := True,
               storageObjects := storageObjects w @ [uid @ ''/'' @ toString (dateNow c) @ ''.webm''],
               calls := calls w @ [InvokeTranscribe audio, InvokeAnalyze transcript]\<rparr>))"
  using assms
  by (cases "checkAnalysis (invokeAnalyze c transcript)")
     (simp_all add: handleSaveAndTranscribe_def onloadend_def Let_def)

lemma checkAnalysis_cases:
  "analysisSummary (fst r) \<noteq> None \<Longrightarrow> checkAnalysis r = Inr ()"
  "analysisSummary (fst r) = None \<Longrightarrow> snd r = None \<Longrightarrow> checkAnalysis r = Inr ()"
  "analysisSummary (fst r) = None \<Longrightarrow> snd r = Some e \<Longrightarrow>
     checkAnalysis r =
       Inl (Error (''Analysis failed: '' @
          (case truthy (message e) of Some m \<Rightarrow> m | None \<Rightarrow> ''Unknown analysis error'')))"
  by (cases r; auto simp: checkAnalysis_def)+

text \<open>
  Claim C3, as amended. In step 4 of the pipeline (upload, encoding and transcription having
  succeeded): if the Analysis Service response contains a non-empty \<open>summary\<close> the pipeline
  proceeds to the duration measurement and the insert, whether or not an error accompanies
  it; if the response contains no summary but the invocation returns an error, the pipeline
  aborts with \<open>Analysis failed: ...\<close> and writes no Recording row; if the response contains
  neither a summary nor an error, the pipeline does not abort at this step: it proceeds
  with partial data.
\<close>

theorem analysis_step:
  assumes "uploadError c = None"
    and "base64Audio (readerResult c) = Some audio"
    and "checkTranscription (invokeTranscribe c audio) = Inr transcript"
  shows
    "(analysisSummary (fst (invokeAnalyze c transcript)) \<noteq> None \<or>
      snd (invokeAnalyze c transcript) = None \<longrightarrow>
        (\<exists>w'. handleSaveAndTranscribe c (Some blob) (Some uid) w =
                persistRecording c uid (getPublicUrl c (uid @ ''/'' @ toString (dateNow c) @ ''.webm''))
                  transcript (fst (invokeAnalyze c transcript)) w' \<and>
              recordingsTable w' = recordingsTable w \<and> highlightsTable w' = highlightsTable w)) \<and>
     (analysisSummary (fst (invokeAnalyze c transcript)) = None \<and>
      snd (invokeAnalyze c transcript) = Some e \<longrightarrow>
        fst (handleSaveAndTranscribe c (Some blob) (Some uid) w) =
          ProcessingError (Error (''Analysis failed: '' @
            (case truthy (message e) of Some m \<Rightarrow> m | None \<Rightarrow> ''Unknown analysis error''))) \<and>
        recordingsTable (snd (handleSaveAndTranscribe c (Some blob) (Some uid) w)) = recordingsTable w)"
proof (intro conjI impI)
  let ?w = "w\<lparr>isProcessing := True,
               storageObjects := storageObjects w @ [uid @ ''/'' @ toString (dateNow c) @ ''.webm''],
               calls := calls w @ [InvokeTranscribe audio, InvokeAnalyze transcript]\<rparr>"
  note reach = handleSaveAndTranscribe_reaches_analysis [OF assms, of blob uid w]
  {
    assume "analysisSummary (fst (invokeAnalyze c transcript)) \<noteq> None \<or>
      snd (invokeAnalyze c transcript) = None"
    then have "checkAnalysis (invokeAnalyze c transcript) = Inr ()"
      using checkAnalysis_cases(1,2) [of "invokeAnalyze c transcript"] by blast
    then have "handleSaveAndTranscribe c (Some blob) (Some uid) w =
        persistRecording c uid (getPublicUrl c (uid @ ''/'' @ toString (dateNow c) @ ''.webm''))
          transcript (fst (invokeAnalyze c transcript)) ?w"
      using reach by simp
    moreover have "recordingsTable ?w = recordingsTable w" "highlightsTable ?w = highlightsTable w"
      by simp_all
    ultimately show "\<exists>w'. handleSaveAndTranscribe c (Some blob) (Some uid) w =
                persistRecording c uid (getPublicUrl c (uid @ ''/'' @ toString (dateNow c) @ ''.webm''))
                  transcript (fst (invokeAnalyze c transcript)) w' \<and>
              recordingsTable w' = recordingsTable w \<and> highlightsTable w' = highlightsTable w"
      by blast
  }
  {
    assume a: "analysisSummary (fst (invokeAnalyze c transcript)) = None \<and>
      snd (invokeAnalyze c transcript) = Some e"
    let ?err = "Error (''Analysis failed: '' @
            (case truthy (message e) of Some m \<Rightarrow> m | None \<Rightarrow> ''Unknown analysis error''))"
    have "checkAnalysis (invokeAnalyze c transcript) = Inl ?err"
      using a checkAnalysis_cases(3) [of "invokeAnalyze c transcript" e] by blast
    then have r: "handleSaveAndTranscribe c (Some blob) (Some uid) w = throwInner ?err ?w"
      using reach by simp
    show "fst (handleSaveAndTranscribe c (Some blob) (Some uid) w) = ProcessingError ?err"
      unfolding r by (simp add: throwInner_simps)
    show "recordingsTable (snd (handleSaveAndTranscribe c (Some blob) (Some uid) w)) = recordingsTable w"
      unfolding r by (simp add: throwInner_simps)
  }
qed

theorem analysis_step_witness:
  "uploadError failedAnalysisRun = None \<and>
   base64Audio (readerResult failedAnalysisRun) = Some ''GkXfo59ChoEB'' \<and>
   checkTranscription (invokeTranscribe failedAnalysisRun ''GkXfo59ChoEB'') = Inr ''Hello team'' \<and>
   analysisSummary (fst (invokeAnalyze failedAnalysisRun ''Hello team'')) = None \<and>
   snd (invokeAnalyze failedAnalysisRun ''Hello team'') =
     Some (FnError (Some ''Edge Function returned a non-2xx status code'')) \<and>
   fst (handleSaveAndTranscribe failedAnalysisRun (Some recordedChunks) (Some ''u1'') emptyWorld) =
     ProcessingError (Error ''Analysis failed: Edge Function returned a non-2xx status code'') \<and>
   recordingsTable (snd (handleSaveAndTranscribe failedAnalysisRun (Some recordedChunks) (Some ''u1'')
     emptyWorld)) = recordingsTable emptyWorld"
proof -
  have h1: "uploadError failedAnalysisRun = None"
    by (simp add: failedAnalysisRun_def happyRun_def)
  have h2: "base64Audio (readerResult failedAnalysisRun) = Some ''GkXfo59ChoEB''"
    by (simp add: failedAnalysisRun_def pipeline_eval)
  have h3: "checkTranscription (invokeTranscribe failedAnalysisRun ''GkXfo59ChoEB'') = Inr ''Hello team''"
    by (simp add: failedAnalysisRun_def pipeline_eval)
  have a1: "analysisSummary (fst (invokeAnalyze failedAnalysisRun ''Hello team'')) = None"
    by (simp add: failedAnalysisRun_def pipeline_eval)
  have a2: "snd (invokeAnalyze failedAnalysisRun ''Hello team'') =
     Some (FnError (Some ''Edge Function returned a non-2xx status code''))"
    by (simp add: failedAnalysisRun_def pipeline_eval)
  from analysis_step [OF h1 h2 h3,
      where e = "FnError (Some ''Edge Function returned a non-2xx status code'')"
        and blob = recordedChunks and uid = "''u1''" and w = emptyWorld,
      THEN conjunct2, THEN mp, OF conjI [OF a1 a2]]
  have "fst (handleSaveAndTranscribe failedAnalysisRun (Some recordedChunks) (Some ''u1'') emptyWorld) =
     ProcessingError (Error ''Analysis failed: Edge Function returned a non-2xx status code'') \<and>
   recordingsTable (snd (handleSaveAndTranscribe failedAnalysisRun (Some recordedChunks) (Some ''u1'')
     emptyWorld)) = recordingsTable emptyWorld"
    by (simp add: truthy_def)
  with h1 h2 h3 a1 a2 show ?thesis by blast
qed

theorem row_without_summary_counterexample:
  "analysisSummary (fst (invokeAnalyze noSummaryRun ''Hello team'')) = None \<and>
   snd (invokeAnalyze noSummaryRun ''Hello team'') = None \<and>
   checkTranscription (invokeTranscribe noSummaryRun ''GkXfo59ChoEB'') = Inr ''Hello team'' \<and>
   base64Audio (readerResult noSummaryRun) = Some ''GkXfo59ChoEB'' \<and>
   recordingsTable emptyWorld = [] \<and>
   fst (handleSaveAndTranscribe noSummaryRun (Some recordedChunks) (Some ''u1'') emptyWorld) = Saved \<and>
   map summary
     (recordingsTable (snd (handleSaveAndTranscribe noSummaryRun (Some recordedChunks) (Some ''u1'')
        emptyWorld))) = [None]"
  by (simp add: noSummaryRun_def pipeline_eval)

subsection \<open>Pipeline and Transcription Service: the size ceiling\<close>

lemma splitOn_no_sep: "sep \<notin> set s \<Longrightarrow> splitOn sep s = [s]"
  by (induction s) auto

lemma calls_throwInner: "calls (snd (throwInner e w)) = calls w"
  by (simp add: throwInner_def)

lemma calls_saveHighlights: "set (calls w) \<subseteq> set (calls (saveHighlights c uid url hs w))"
  by (auto simp: saveHighlights_def Let_def split: option.splits list.splits)

lemma calls_persistRecording:
  "set (calls w) \<subseteq> set (calls (snd (persistRecording c uid url transcript ad w)))"
proof (cases "loadMetadata c")
  case NeverLoads
  then show ?thesis by (simp add: persistRecording_def)
next
  case (LoadedMetadata d)
  show ?thesis
  proof (cases ad)
    case None
    then show ?thesis using LoadedMetadata by (simp add: persistRecording_def throwInner_def)
  next
    case (Some a)
    show ?thesis
    proof (cases "dbError c")
      case (Some err)
      then show ?thesis using LoadedMetadata \<open>ad = Some a\<close>
        by (auto simp: persistRecording_def throwInner_def Let_def)
    next
      case None
      obtain w2 where w2: "calls (snd (persistRecording c uid url transcript ad w)) =
            calls (saveHighlights c uid url (analysis_highlights a) w2)"
          and c2: "calls w2 = calls w @ [InsertRecording]"
        using LoadedMetadata \<open>ad = Some a\<close> None
        by (simp add: persistRecording_def Let_def handleDiscard_def)
      have "set (calls w) \<subseteq> set (calls w2)" unfolding c2 by (simp add: subset_insertI)
      also have "\<dots> \<subseteq> set (calls (saveHighlights c uid url (analysis_highlights a) w2))"
        by (rule calls_saveHighlights)
      finally show ?thesis unfolding w2 .
    qed
  qed
qed

lemma calls_onloadend:
  assumes "base64Audio (readerResult c) = Some audio"
  shows "InvokeTranscribe audio \<in> set (calls (snd (onloadend c uid url w)))"
proof (cases "checkTranscription (invokeTranscribe c audio)")
  case (Inl e)
  then show ?thesis using assms by (simp add: onloadend_def Let_def throwInner_def)
next
  case (Inr transcript)
  show ?thesis
  proof (cases "checkAnalysis (invokeAnalyze c transcript)")
    case (Inl e)
    then show ?thesis using assms Inr by (simp add: onloadend_def Let_def throwInner_def)
  next
    case (Inr u)
    let ?w = "w\<lparr>calls := calls w @ [InvokeTranscribe audio, InvokeAnalyze transcript]\<rparr>"
    have eq: "onloadend c uid url w =
        persistRecording c uid url transcript (fst (invokeAnalyze c transcript)) ?w"
      using assms Inr \<open>checkTranscription (invokeTranscribe c audio) = Inr transcript\<close>
      by (simp add: onloadend_def Let_def)
    have "InvokeTranscribe audio \<in> set (calls ?w)" by simp
    then show ?thesis
      unfolding eq
      using calls_persistRecording [of ?w c uid url transcript "fst (invokeAnalyze c transcript)"]
      by (rule rev_subsetD)
  qed
qed

lemma length_oversizedAudio: "length oversizedAudio = 10000001"
  by (simp only: oversizedAudio_def length_replicate)

lemma no_comma_oversizedAudio: "CHR '','' \<notin> set oversizedAudio"
proof
  assume "CHR '','' \<in> set oversizedAudio"
  then have "CHR '','' \<in> set (replicate 10000001 (CHR ''A''))" by (simp only: oversizedAudio_def)
  then have "CHR '','' = CHR ''A''" by (rule in_set_replicate [THEN iffD1, THEN conjunct1])
  then show False by simp
qed

lemma base64Audio_oversizedRun: "base64Audio (readerResult oversizedRun) = Some oversizedAudio"
proof -
  have s: "splitOn (CHR '','') oversizedAudio = [oversizedAudio]"
    using no_comma_oversizedAudio by (rule splitOn_no_sep)
  have "splitOn (CHR '','') (''data:audio/webm;base64,'' @ oversizedAudio) =
      [''data:audio/webm;base64'', oversizedAudio]"
    by (simp add: s)
  then show ?thesis
    by (simp add: oversizedRun_def base64Audio_def elementAt_def del: append.simps)
qed

text \<open>
  Claim C4, as amended. The orchestrator makes no size check of its own: whenever the upload
  has succeeded and the audio has been encoded, it invokes the Transcription Service with
  the encoded audio, whatever its length. The ceiling is enforced by the Transcription
  Service: a request whose encoded audio is longer than 10,000,000 characters is answered
  with status 500 and the error \<open>Audio file too large. Please use shorter recordings.\<close>
  without being forwarded upstream, and a request within the ceiling is forwarded.
\<close>

theorem size_ceiling_in_service:
  "(uploadError c = None \<and> base64Audio (readerResult c) = Some audio \<longrightarrow>
      InvokeTranscribe audio \<in>
        set (calls (snd (handleSaveAndTranscribe c (Some blob) (Some uid) w)))) \<and>
   (httpMethod \<noteq> OPTIONS \<and> truthy audioField = Some encoded \<and> truthy geminiApiKey = Some key \<and>
    length encoded > 10000000 \<longrightarrow>
      transcribe_audio geminiApiKey fetch httpMethod (Payload audioField) =
        \<lparr>reply = \<lparr>status = 500,
                   body = Json (JObj [(''error'',
                     JStr ''Audio file too large. Please use shorter recordings.'')])\<rparr>,
         upstreamCalls = []\<rparr>) \<and>
   (httpMethod \<noteq> OPTIONS \<and> truthy audioField = Some encoded \<and> truthy geminiApiKey = Some key \<and>
    length encoded \<le> 10000000 \<longrightarrow>
      upstreamCalls (transcribe_audio geminiApiKey fetch httpMethod (Payload audioField)) = [encoded])"
proof (intro conjI impI)
  assume "uploadError c = None \<and> base64Audio (readerResult c) = Some audio"
  then have u: "uploadError c = None" and b: "base64Audio (readerResult c) = Some audio" by simp_all
  have "handleSaveAndTranscribe c (Some blob) (Some uid) w =
      onloadend c uid (getPublicUrl c (uid @ ''/'' @ toString (dateNow c) @ ''.webm''))
        (w\<lparr>isProcessing := True,
           storageObjects := storageObjects w @ [uid @ ''/'' @ toString (dateNow c) @ ''.webm'']\<rparr>)"
    using u by (simp add: handleSaveAndTranscribe_def Let_def)
  then show "InvokeTranscribe audio \<in>
        set (calls (snd (handleSaveAndTranscribe c (Some blob) (Some uid) w)))"
    using calls_onloadend [OF b] by simp
next
  assume "httpMethod \<noteq> OPTIONS \<and> truthy audioField = Some encoded \<and> truthy geminiApiKey = Some key \<and>
    length encoded > 10000000"
  then show "transcribe_audio geminiApiKey fetch httpMethod (Payload audioField) =
        \<lparr>reply = \<lparr>status = 500,
                   body = Json (JObj [(''error'',
                     JStr ''Audio file too large. Please use shorter recordings.'')])\<rparr>,
         upstreamCalls = []\<rparr>"
    by (simp add: transcribe_audio_def transcriptionFailure_def)
next
  assume a: "httpMethod \<noteq> OPTIONS \<and> truthy audioField = Some encoded \<and> truthy geminiApiKey = Some key \<and>
    length encoded \<le> 10000000"
  show "upstreamCalls (transcribe_audio geminiApiKey fetch httpMethod (Payload audioField)) = [encoded]"
  proof (cases "fetch key encoded")
    case (NetworkError msg)
    then show ?thesis using a by (simp add: transcribe_audio_def transcriptionFailure_def)
  next
    case (Responded r)
    show ?thesis
    proof (cases "resp_ok r")
      case False
      then show ?thesis using a Responded by (simp add: transcribe_audio_def)
    next
      case True
      then show ?thesis using a Responded
        by (cases "resp_json r")
           (simp_all add: transcribe_audio_def transcriptionFailure_def split: option.splits)
    qed
  qed
qed

theorem size_ceiling_in_service_witness:
  "POST \<noteq> OPTIONS \<and> truthy (Some oversizedAudio) = Some oversizedAudio \<and>
   truthy (Some ''secret'') = Some ''secret'' \<and> length oversizedAudio > 10000000 \<and>
   transcribe_audio (Some ''secret'') chattyUpstream POST (Payload (Some oversizedAudio)) =
     \<lparr>reply = \<lparr>status = 500,
                body = Json (JObj [(''error'',
                  JStr ''Audio file too large. Please use shorter recordings.'')])\<rparr>,
      upstreamCalls = []\<rparr> \<and>
   uploadError oversizedRun = None \<and>
   base64Audio (readerResult oversizedRun) = Some oversizedAudio \<and>
   InvokeTranscribe oversizedAudio \<in>
     set (calls (snd (handleSaveAndTranscribe oversizedRun (Some recordedChunks) (Some ''u1'') emptyWorld)))"
proof -
  have ne: "oversizedAudio \<noteq> []" using length_oversizedAudio by auto
  have h1: "POST \<noteq> OPTIONS" by simp
  have h2: "truthy (Some oversizedAudio) = Some oversizedAudio" using ne by (simp add: truthy_def)
  have h3: "truthy (Some ''secret'') = Some ''secret''" by (simp add: truthy_def)
  have h4: "length oversizedAudio > 10000000" by (simp add: length_oversizedAudio)
  have u: "uploadError oversizedRun = None" by (simp add: oversizedRun_def happyRun_def)
  note b = base64Audio_oversizedRun
  note t = size_ceiling_in_service
    [where c = oversizedRun and audio = oversizedAudio and blob = recordedChunks and uid = "''u1''"
       and w = emptyWorld and httpMethod = POST and audioField = "Some oversizedAudio"
       and encoded = oversizedAudio and geminiApiKey = "Some ''secret''" and key = "''secret''"
       and fetch = chattyUpstream]
  from t [THEN conjunct1, THEN mp, OF conjI [OF u b]]
       t [THEN conjunct2, THEN conjunct1, THEN mp, OF conjI [OF h1 conjI [OF h2 conjI [OF h3 h4]]]]
       h1 h2 h3 h4 u b
  show ?thesis by blast
qed

theorem oversized_audio_invoked_counterexample:
  "length oversizedAudio > 10000000 \<and>
   uploadError oversizedRun = None \<and>
   base64Audio (readerResult oversizedRun) = Some oversizedAudio \<and>
   InvokeTranscribe oversizedAudio \<in>
     set (calls (snd (handleSaveAndTranscribe oversizedRun (Some recordedChunks) (Some ''u1'') emptyWorld))) \<and>
   fst (handleSaveAndTranscribe oversizedRun (Some recordedChunks) (Some ''u1'') emptyWorld) = Saved"
proof -
  have u: "uploadError oversizedRun = None" by (simp add: oversizedRun_def happyRun_def)
  note b = base64Audio_oversizedRun
  have t: "checkTranscription (invokeTranscribe oversizedRun oversizedAudio) = Inr ''Hello team''"
    by (simp add: oversizedRun_def happyRun_def checkTranscription_def transcriptionText_def truthy_def)
  have a: "checkAnalysis (invokeAnalyze oversizedRun ''Hello team'') = Inr ()"
    by (simp add: oversizedRun_def happyRun_def goodAnalysis_def checkAnalysis_def
        analysisSummary_def truthy_def)
  have "fst (handleSaveAndTranscribe oversizedRun (Some recordedChunks) (Some ''u1'') emptyWorld) = Saved"
    unfolding handleSaveAndTranscribe_reaches_analysis [OF u b t] a
    by (simp add: persistRecording_def oversizedRun_def happyRun_def goodAnalysis_def Let_def)
  moreover have "InvokeTranscribe oversizedAudio \<in>
     set (calls (snd (handleSaveAndTranscribe oversizedRun (Some recordedChunks) (Some ''u1'') emptyWorld)))"
    unfolding handleSaveAndTranscribe_reaches_analysis [OF u b t] a
    using calls_persistRecording
      [of "emptyWorld\<lparr>isProcessing := True,
               storageObjects := storageObjects emptyWorld @ [''u1'' @ ''/'' @ toString (dateNow oversizedRun) @ ''.webm''],
               calls := calls emptyWorld @ [InvokeTranscribe oversizedAudio, InvokeAnalyze ''Hello team'']\<rparr>"
          oversizedRun "''u1''"
          "getPublicUrl oversizedRun (''u1'' @ ''/'' @ toString (dateNow oversizedRun) @ ''.webm'')"
          "''Hello team''" "fst (invokeAnalyze oversizedRun ''Hello team'')"]
    by (simp add: subset_iff)
  ultimately show ?thesis using u b by (simp add: length_oversizedAudio)
qed

subsection \<open>Pipeline: the duration measurement\<close>

lemma persistRecording_stalled:
  "loadMetadata c = NeverLoads \<Longrightarrow> persistRecording c uid url transcript ad w = (Pending, w)"
  by (simp add: persistRecording_def)

lemma onloadend_stalled:
  assumes "loadMetadata c = NeverLoads"
  shows "fst (onloadend c uid url w) \<noteq> Saved \<and>
         recordingsTable (snd (onloadend c uid url w)) = recordingsTable w \<and>
         InsertRecording \<notin> set (calls (snd (onloadend c uid url w))) - set (calls w)"
proof (cases "base64Audio (readerResult c)")
  case None
  then show ?thesis by (simp add: onloadend_def throwInner_def)
next
  case (Some audio)
  show ?thesis
  proof (cases "checkTranscription (invokeTranscribe c audio)")
    case (Inl e)
    then show ?thesis using Some by (simp add: onloadend_def Let_def throwInner_def)
  next
    case (Inr transcript)
    then show ?thesis using Some assms
      by (cases "checkAnalysis (invokeAnalyze c transcript)")
         (simp_all add: onloadend_def Let_def throwInner_def persistRecording_stalled)
  qed
qed

lemma stalled_metadata_never_saves:
  assumes "loadMetadata c = NeverLoads"
  shows "fst (handleSaveAndTranscribe c recordedBlob user w) \<noteq> Saved \<and>
         recordingsTable (snd (handleSaveAndTranscribe c recordedBlob user w)) = recordingsTable w"
proof (cases "\<exists>blob uid. recordedBlob = Some blob \<and> user = Some uid")
  case False
  then have "handleSaveAndTranscribe c recordedBlob user w = (Skipped, w)"
    by (cases recordedBlob; cases user) (simp_all add: handleSaveAndTranscribe_def)
  then show ?thesis by simp
next
  case True
  then obtain blob uid where bu: "recordedBlob = Some blob" "user = Some uid" by blast
  show ?thesis
  proof (cases "uploadError c")
    case (Some err)
    then show ?thesis using bu by (simp add: handleSaveAndTranscribe_def Let_def)
  next
    case None
    then show ?thesis using bu onloadend_stalled [OF assms]
      by (simp add: handleSaveAndTranscribe_def Let_def)
  qed
qed

text \<open>
  Claim C5 fails on the code. The duration measurement awaits a promise that is resolved by
  the \<open>loadedmetadata\<close> event only. When the event never fires, with every other step
  succeeding, the handler never resumes: no insert is issued, the table stays as it was and
  the processing flag stays set. When the metadata loads with an invalid duration the save
  does complete, with a null \<open>duration_seconds\<close>.
\<close>

theorem metadata_stall_blocks_save:
  "loadMetadata stalledRun = NeverLoads \<and>
   fst (handleSaveAndTranscribe stalledRun (Some recordedChunks) (Some ''u1'') emptyWorld) = Pending \<and>
   recordingsTable (snd (handleSaveAndTranscribe stalledRun (Some recordedChunks) (Some ''u1'')
      emptyWorld)) = [] \<and>
   calls (snd (handleSaveAndTranscribe stalledRun (Some recordedChunks) (Some ''u1'') emptyWorld)) =
     [InvokeTranscribe ''GkXfo59ChoEB'', InvokeAnalyze ''Hello team''] \<and>
   isProcessing (snd (handleSaveAndTranscribe stalledRun (Some recordedChunks) (Some ''u1'')
      emptyWorld)) \<and>
   fst (handleSaveAndTranscribe invalidDurationRun (Some recordedChunks) (Some ''u1'') emptyWorld) =
     Saved \<and>
   map duration_seconds
     (recordingsTable (snd (handleSaveAndTranscribe invalidDurationRun (Some recordedChunks)
        (Some ''u1'') emptyWorld))) = [None] \<and>
   map duration_formatted
     (recordingsTable (snd (handleSaveAndTranscribe invalidDurationRun (Some recordedChunks)
        (Some ''u1'') emptyWorld))) = [Some ''Infinity:NaN'']"
  by (simp add: stalledRun_def invalidDurationRun_def pipeline_eval)

end
